theory Spec2Isabelle
  imports Complex_Main
begin

section \<open>Technology adoption curves (src/lib/curves.ts)\<close>

text \<open>
  JavaScript numbers are modelled as reals (exact arithmetic, no rounding). The loop
  counters and the \<open>points\<close> parameter are integers, as the specification's data model
  has them. The default arguments of the source (\<open>timeRange = 20\<close>, \<open>points = 100\<close>,
  \<open>startTime = -10\<close>) are not modelled: every call passes all its arguments.

  Two things of the source leave the reals and are written into the model as error values:
  \<^item> a division whose divisor is zero yields \<open>NaN\<close> or an infinity in JavaScript, never a
    real number: \<open>js_div\<close> returns \<open>Inl NotFinite\<close> there. JavaScript does not throw at
    that point; \<open>Inl NotFinite\<close> as the result of a function says that the array the source
    returns carries a number that is not a finite real. Divisions by a non-zero literal or
    by \<open>1 + exp x\<close> cannot have a zero divisor and are written with HOL's \<open>/\<close>;
  \<^item> reading a property of \<open>undefined\<close> (an array read out of range followed by
    \<open>.time\<close>) throws: \<open>Inl TypeError\<close>.

  Two refinements of this model follow it, each proved to agree with it where both speak:
  the generators on JavaScript numbers with \<open>NaN\<close> and the infinities (what the returned
  array holds when \<open>points = 0\<close>), and \<open>offsetCurve\<close> with every arithmetic result
  rounded to a double (what rounding does to the interpolated values).
\<close>

subsection \<open>Data model\<close>

record CurvePoint =
  time :: real
  val :: real

type_synonym Curve = "CurvePoint list"

datatype error = TypeError | NotFinite

definition js_div :: "real \<Rightarrow> real \<Rightarrow> error + real" where
  "js_div a b = (if b = 0 then Inl NotFinite else Inr (a / b))"

definition js_nth :: "'a list \<Rightarrow> int \<Rightarrow> 'a option" where
  \<comment> \<open>\<open>xs[i]\<close>: \<open>undefined\<close> (here \<open>None\<close>) out of range\<close>
  "js_nth xs i = (if 0 \<le> i \<and> i < int (length xs) then Some (xs ! nat i) else None)"

subsection \<open>generateHypeCycle\<close>

text \<open>The four branches of the piecewise model, as functions of the local time \<open>t\<close>.\<close>

definition hype_baseline :: "real \<Rightarrow> real" where
  "hype_baseline t = 0.05"

definition hype_rise :: "real \<Rightarrow> real" where
  "hype_rise t = 0.1 + 0.9 * (1 - exp (- t * 1.5)) * exp (- ((t - 2.5)\<^sup>2) / 2)"

definition hype_decline :: "real \<Rightarrow> real" where
  "hype_decline t =
     (let peakValue = 0.95; troughValue = 0.15; decline = exp (- (t - 3) * 0.8)
      in troughValue + (peakValue - troughValue) * decline)"

definition hype_recovery :: "real \<Rightarrow> real" where
  "hype_recovery t =
     (let troughValue = 0.15; plateauValue = 0.7; progress = min 1 ((t - 10) / 8)
      in troughValue + (plateauValue - troughValue) * (1 / (1 + exp (- 5 * (progress - 0.5)))))"

definition hype_value :: "real \<Rightarrow> real" where
  "hype_value t =
     (if t < 0 then hype_baseline t
      else if t \<le> 3 then hype_rise t
      else if t \<le> 10 then hype_decline t
      else hype_recovery t)"

function generateHypeCycle_loop ::
  "real \<Rightarrow> int \<Rightarrow> real \<Rightarrow> int \<Rightarrow> Curve \<Rightarrow> error + Curve" where
  "generateHypeCycle_loop totalRange points startTime i curve =
     (if i \<le> points then
        (case js_div (of_int i) (of_int points) of
           Inl e \<Rightarrow> Inl e
         | Inr q \<Rightarrow>
             (let t = q * totalRange + startTime
              in generateHypeCycle_loop totalRange points startTime (i + 1)
                   (curve @ [\<lparr>time = t, val = max 0 (min 1 (hype_value t))\<rparr>])))
      else Inr curve)"
  by pat_completeness auto
termination
  by (relation "measure (\<lambda>(totalRange, points, startTime, i, curve). nat (points + 1 - i))") auto

declare generateHypeCycle_loop.simps [simp del]

definition generateHypeCycle :: "real \<Rightarrow> int \<Rightarrow> real \<Rightarrow> error + Curve" where
  "generateHypeCycle timeRange points startTime =
     (let totalRange = timeRange + \<bar>startTime\<bar>
      in generateHypeCycle_loop totalRange points startTime 0 [])"

subsection \<open>generateSCurve\<close>

definition scurve_value :: "real \<Rightarrow> real \<Rightarrow> real" where
  "scurve_value timeRange t =
     (let growthRate = 0.5; midpoint = timeRange * 0.4
      in 1 / (1 + exp (- growthRate * (t - midpoint))))"

function generateSCurve_loop ::
  "real \<Rightarrow> real \<Rightarrow> int \<Rightarrow> real \<Rightarrow> int \<Rightarrow> Curve \<Rightarrow> error + Curve" where
  "generateSCurve_loop timeRange totalRange points startTime i curve =
     (if i \<le> points then
        (case js_div (of_int i) (of_int points) of
           Inl e \<Rightarrow> Inl e
         | Inr q \<Rightarrow>
             (let t = q * totalRange + startTime
              in generateSCurve_loop timeRange totalRange points startTime (i + 1)
                   (curve @ [\<lparr>time = t, val = scurve_value timeRange t\<rparr>])))
      else Inr curve)"
  by pat_completeness auto
termination
  by (relation "measure (\<lambda>(timeRange, totalRange, points, startTime, i, curve).
        nat (points + 1 - i))") auto

declare generateSCurve_loop.simps [simp del]

definition generateSCurve :: "real \<Rightarrow> int \<Rightarrow> real \<Rightarrow> error + Curve" where
  "generateSCurve timeRange points startTime =
     (let totalRange = timeRange + \<bar>startTime\<bar>
      in generateSCurve_loop timeRange totalRange points startTime 0 [])"

subsection \<open>blendCurves\<close>

function blendCurves_loop :: "Curve \<Rightarrow> Curve \<Rightarrow> real \<Rightarrow> nat \<Rightarrow> nat \<Rightarrow> Curve \<Rightarrow> Curve" where
  "blendCurves_loop curve1 curve2 blendRatio minLength i blended =
     (if i < minLength then
        (let v = val (curve1 ! i) * (1 - blendRatio) + val (curve2 ! i) * blendRatio
         in blendCurves_loop curve1 curve2 blendRatio minLength (i + 1)
              (blended @ [\<lparr>time = time (curve1 ! i), val = v\<rparr>]))
      else blended)"
  by pat_completeness auto
termination
  by (relation "measure (\<lambda>(curve1, curve2, blendRatio, minLength, i, blended). minLength - i)")
    auto

declare blendCurves_loop.simps [simp del]

definition blendCurves :: "Curve \<Rightarrow> Curve \<Rightarrow> real \<Rightarrow> Curve" where
  \<comment> \<open>every index read is below \<open>minLength\<close>, hence in range of both arrays\<close>
  "blendCurves curve1 curve2 blendRatio =
     (let minLength = min (length curve1) (length curve2)
      in blendCurves_loop curve1 curve2 blendRatio minLength 0 [])"

subsection \<open>offsetCurve\<close>

definition shift_point :: "real \<Rightarrow> CurvePoint \<Rightarrow> CurvePoint" where
  "shift_point offset point = \<lparr>time = time point + offset, val = val point\<rparr>"

text \<open>
  The scan for the bracketing pair: the first index \<open>i\<close> below \<open>length - 1\<close> with
  \<open>m[i].time \<le> t \<le> m[i+1].time\<close>, where the source breaks out of the loop; \<open>None\<close> when
  the loop ends without a match. Both reads are in range under the loop condition.
\<close>

function find_bracket :: "Curve \<Rightarrow> real \<Rightarrow> nat \<Rightarrow> (CurvePoint \<times> CurvePoint) option" where
  "find_bracket offsetCurveMap t i =
     (if int i < int (length offsetCurveMap) - 1 then
        (if time (offsetCurveMap ! i) \<le> t \<and> time (offsetCurveMap ! (i + 1)) \<ge> t
         then Some (offsetCurveMap ! i, offsetCurveMap ! (i + 1))
         else find_bracket offsetCurveMap t (i + 1))
      else None)"
  by pat_completeness auto
termination
  by (relation "measure (\<lambda>(offsetCurveMap, t, i). length offsetCurveMap - i)") auto

declare find_bracket.simps [simp del]

text \<open>
  The pair the interpolation uses: \<open>beforePoint\<close> and \<open>afterPoint\<close> start as the first
  and the last element (\<open>undefined\<close> for an empty array) and are overwritten by the first
  bracketing pair, if the scan finds one.
\<close>

definition select_pair :: "Curve \<Rightarrow> real \<Rightarrow> CurvePoint option \<times> CurvePoint option" where
  "select_pair offsetCurveMap t =
     (case find_bracket offsetCurveMap t 0 of
        Some (b, a) \<Rightarrow> (Some b, Some a)
      | None \<Rightarrow> (js_nth offsetCurveMap 0,
                 js_nth offsetCurveMap (int (length offsetCurveMap) - 1)))"

definition interpolate_at :: "Curve \<Rightarrow> real \<Rightarrow> error + CurvePoint" where
  "interpolate_at offsetCurveMap t =
     (case select_pair offsetCurveMap t of
        (None, _) \<Rightarrow> Inl TypeError
      | (Some beforePoint, None) \<Rightarrow> Inl TypeError
      | (Some beforePoint, Some afterPoint) \<Rightarrow>
          if time beforePoint = time afterPoint then Inr \<lparr>time = t, val = val beforePoint\<rparr>
          else
            (case js_div (t - time beforePoint) (time afterPoint - time beforePoint) of
               Inl e \<Rightarrow> Inl e
             | Inr r \<Rightarrow>
                 (let v = val beforePoint + r * (val afterPoint - val beforePoint)
                  in Inr \<lparr>time = t, val = max 0 (min 1 v)\<rparr>)))"

text \<open>\<open>Array.map\<close> with a callback that may throw: the first error ends the call.\<close>

fun map_result :: "('a \<Rightarrow> error + 'b) \<Rightarrow> 'a list \<Rightarrow> error + 'b list" where
  "map_result f [] = Inr []"
| "map_result f (x # xs) =
     (case f x of
        Inl e \<Rightarrow> Inl e
      | Inr y \<Rightarrow> (case map_result f xs of Inl e \<Rightarrow> Inl e | Inr ys \<Rightarrow> Inr (y # ys)))"

definition offsetCurve :: "Curve \<Rightarrow> real \<Rightarrow> real list \<Rightarrow> error + Curve" where
  "offsetCurve curve offset originalTimes =
     (let offsetCurveMap = map (shift_point offset) curve
      in map_result (interpolate_at offsetCurveMap) originalTimes)"

subsection \<open>generateCombinedCurve\<close>

record CombinedCurves =
  hypeCurve :: Curve
  sCurve :: Curve
  combinedCurve :: Curve

definition generateCombinedCurve ::
  "real \<Rightarrow> real \<Rightarrow> real \<Rightarrow> int \<Rightarrow> real \<Rightarrow> error + CombinedCurves" where
  "generateCombinedCurve timeOffset blendRatio timeRange points startTime =
     (case generateHypeCycle timeRange points startTime of
        Inl e \<Rightarrow> Inl e
      | Inr hype \<Rightarrow>
         (case generateSCurve timeRange points startTime of
            Inl e \<Rightarrow> Inl e
          | Inr originalSCurve \<Rightarrow>
             (let originalTimes = map time hype
              in case offsetCurve originalSCurve timeOffset originalTimes of
                   Inl e \<Rightarrow> Inl e
                 | Inr s \<Rightarrow>
                     Inr \<lparr>hypeCurve = hype, sCurve = s,
                          combinedCurve = blendCurves hype s blendRatio\<rparr>)))"

subsection \<open>The samples the generator loops push\<close>

definition hype_sample :: "real \<Rightarrow> int \<Rightarrow> real \<Rightarrow> int \<Rightarrow> CurvePoint" where
  "hype_sample totalRange points startTime i =
     (let t = of_int i / of_int points * totalRange + startTime
      in \<lparr>time = t, val = max 0 (min 1 (hype_value t))\<rparr>)"

definition scurve_sample :: "real \<Rightarrow> real \<Rightarrow> int \<Rightarrow> real \<Rightarrow> int \<Rightarrow> CurvePoint" where
  "scurve_sample timeRange totalRange points startTime i =
     (let t = of_int i / of_int points * totalRange + startTime
      in \<lparr>time = t, val = scurve_value timeRange t\<rparr>)"

subsection \<open>The generators on JavaScript numbers\<close>

text \<open>
  A JavaScript number is a finite real, \<open>Infinity\<close>, \<open>-Infinity\<close> or \<open>NaN\<close>. The
  operators below follow IEEE 754 on the special values and are exact on finite ones (the
  model has one zero, so \<open>x / 0\<close> takes the sign of \<open>x\<close>). Comparisons with \<open>NaN\<close> are
  false; \<open>Math.min\<close> and \<open>Math.max\<close> return \<open>NaN\<close> when an argument is \<open>NaN\<close>.
\<close>

datatype jsnum = Num real | PosInf | NegInf | NaN

fun js_neg :: "jsnum \<Rightarrow> jsnum" where
  "js_neg (Num a) = Num (- a)"
| "js_neg PosInf = NegInf"
| "js_neg NegInf = PosInf"
| "js_neg NaN = NaN"

fun js_add :: "jsnum \<Rightarrow> jsnum \<Rightarrow> jsnum" where
  "js_add NaN _ = NaN"
| "js_add _ NaN = NaN"
| "js_add (Num a) (Num b) = Num (a + b)"
| "js_add PosInf NegInf = NaN"
| "js_add NegInf PosInf = NaN"
| "js_add PosInf _ = PosInf"
| "js_add _ PosInf = PosInf"
| "js_add NegInf _ = NegInf"
| "js_add _ NegInf = NegInf"

definition js_sub :: "jsnum \<Rightarrow> jsnum \<Rightarrow> jsnum" where
  "js_sub a b = js_add a (js_neg b)"

definition js_inf :: "bool \<Rightarrow> jsnum" where
  "js_inf positive = (if positive then PosInf else NegInf)"

fun js_mul :: "jsnum \<Rightarrow> jsnum \<Rightarrow> jsnum" where
  "js_mul NaN _ = NaN"
| "js_mul _ NaN = NaN"
| "js_mul (Num a) (Num b) = Num (a * b)"
| "js_mul PosInf (Num b) = (if b = 0 then NaN else js_inf (0 < b))"
| "js_mul NegInf (Num b) = (if b = 0 then NaN else js_inf (b < 0))"
| "js_mul (Num a) PosInf = (if a = 0 then NaN else js_inf (0 < a))"
| "js_mul (Num a) NegInf = (if a = 0 then NaN else js_inf (a < 0))"
| "js_mul PosInf PosInf = PosInf"
| "js_mul NegInf NegInf = PosInf"
| "js_mul PosInf NegInf = NegInf"
| "js_mul NegInf PosInf = NegInf"

fun js_divide :: "jsnum \<Rightarrow> jsnum \<Rightarrow> jsnum" where
  "js_divide NaN _ = NaN"
| "js_divide _ NaN = NaN"
| "js_divide (Num a) (Num b) =
     (if b = 0 then (if a = 0 then NaN else js_inf (0 < a)) else Num (a / b))"
| "js_divide (Num a) _ = Num 0"
| "js_divide PosInf (Num b) = js_inf (0 \<le> b)"
| "js_divide NegInf (Num b) = js_inf (b < 0)"
| "js_divide _ _ = NaN"

fun js_exp :: "jsnum \<Rightarrow> jsnum" where
  "js_exp (Num a) = Num (exp a)"
| "js_exp PosInf = PosInf"
| "js_exp NegInf = Num 0"
| "js_exp NaN = NaN"

fun js_pow2 :: "jsnum \<Rightarrow> jsnum" where
  "js_pow2 (Num a) = Num (a\<^sup>2)"
| "js_pow2 NaN = NaN"
| "js_pow2 _ = PosInf"

fun js_le :: "jsnum \<Rightarrow> jsnum \<Rightarrow> bool" where
  "js_le NaN _ = False"
| "js_le _ NaN = False"
| "js_le (Num a) (Num b) = (a \<le> b)"
| "js_le NegInf _ = True"
| "js_le _ PosInf = True"
| "js_le _ _ = False"

fun js_lt :: "jsnum \<Rightarrow> jsnum \<Rightarrow> bool" where
  "js_lt NaN _ = False"
| "js_lt _ NaN = False"
| "js_lt (Num a) (Num b) = (a < b)"
| "js_lt PosInf _ = False"
| "js_lt _ NegInf = False"
| "js_lt _ _ = True"

fun js_min :: "jsnum \<Rightarrow> jsnum \<Rightarrow> jsnum" where
  "js_min NaN _ = NaN"
| "js_min _ NaN = NaN"
| "js_min a b = (if js_le a b then a else b)"

fun js_max :: "jsnum \<Rightarrow> jsnum \<Rightarrow> jsnum" where
  "js_max NaN _ = NaN"
| "js_max _ NaN = NaN"
| "js_max a b = (if js_le a b then b else a)"

text \<open>
  The two generators once more, operator by operator on \<open>jsnum\<close>: no early exit, the loop
  pushes one point per iteration whatever the numbers are, as the source does.
\<close>

record JsPoint =
  jtime :: jsnum
  jval :: jsnum

definition js_point :: "CurvePoint \<Rightarrow> JsPoint" where
  "js_point p = \<lparr>jtime = Num (time p), jval = Num (val p)\<rparr>"

definition hype_value_js :: "jsnum \<Rightarrow> jsnum" where
  "hype_value_js t =
     (if js_lt t (Num 0) then Num 0.05
      else if js_le t (Num 3) then
        js_add (Num 0.1)
          (js_mul (js_mul (Num 0.9) (js_sub (Num 1) (js_exp (js_mul (js_neg t) (Num 1.5)))))
                  (js_exp (js_divide (js_neg (js_pow2 (js_sub t (Num 2.5)))) (Num 2))))
      else if js_le t (Num 10) then
        (let peakValue = Num 0.95; troughValue = Num 0.15;
             decline = js_exp (js_mul (js_neg (js_sub t (Num 3))) (Num 0.8))
         in js_add troughValue (js_mul (js_sub peakValue troughValue) decline))
      else
        (let troughValue = Num 0.15; plateauValue = Num 0.7;
             progress = js_min (Num 1) (js_divide (js_sub t (Num 10)) (Num 8))
         in js_add troughValue
              (js_mul (js_sub plateauValue troughValue)
                 (js_divide (Num 1)
                    (js_add (Num 1) (js_exp (js_mul (Num (- 5)) (js_sub progress (Num 0.5)))))))))"

function generateHypeCycle_js_loop ::
  "jsnum \<Rightarrow> int \<Rightarrow> jsnum \<Rightarrow> int \<Rightarrow> JsPoint list \<Rightarrow> JsPoint list" where
  "generateHypeCycle_js_loop totalRange points startTime i curve =
     (if i \<le> points then
        (let t = js_add (js_mul (js_divide (Num (of_int i)) (Num (of_int points))) totalRange)
                   startTime
         in generateHypeCycle_js_loop totalRange points startTime (i + 1)
              (curve @ [\<lparr>jtime = t, jval = js_max (Num 0) (js_min (Num 1) (hype_value_js t))\<rparr>]))
      else curve)"
  by pat_completeness auto
termination
  by (relation "measure (\<lambda>(totalRange, points, startTime, i, curve). nat (points + 1 - i))") auto

declare generateHypeCycle_js_loop.simps [simp del]

definition generateHypeCycle_js :: "real \<Rightarrow> int \<Rightarrow> real \<Rightarrow> JsPoint list" where
  "generateHypeCycle_js timeRange points startTime =
     (let totalRange = Num (timeRange + \<bar>startTime\<bar>)
      in generateHypeCycle_js_loop totalRange points (Num startTime) 0 [])"

definition scurve_value_js :: "real \<Rightarrow> jsnum \<Rightarrow> jsnum" where
  "scurve_value_js timeRange t =
     (let growthRate = Num 0.5; midpoint = Num (timeRange * 0.4)
      in js_divide (Num 1)
           (js_add (Num 1) (js_exp (js_mul (js_neg growthRate) (js_sub t midpoint)))))"

function generateSCurve_js_loop ::
  "real \<Rightarrow> jsnum \<Rightarrow> int \<Rightarrow> jsnum \<Rightarrow> int \<Rightarrow> JsPoint list \<Rightarrow> JsPoint list" where
  "generateSCurve_js_loop timeRange totalRange points startTime i curve =
     (if i \<le> points then
        (let t = js_add (js_mul (js_divide (Num (of_int i)) (Num (of_int points))) totalRange)
                   startTime
         in generateSCurve_js_loop timeRange totalRange points startTime (i + 1)
              (curve @ [\<lparr>jtime = t, jval = scurve_value_js timeRange t\<rparr>]))
      else curve)"
  by pat_completeness auto
termination
  by (relation "measure (\<lambda>(timeRange, totalRange, points, startTime, i, curve).
        nat (points + 1 - i))") auto

declare generateSCurve_js_loop.simps [simp del]

definition generateSCurve_js :: "real \<Rightarrow> int \<Rightarrow> real \<Rightarrow> JsPoint list" where
  "generateSCurve_js timeRange points startTime =
     (let totalRange = Num (timeRange + \<bar>startTime\<bar>)
      in generateSCurve_js_loop timeRange totalRange points (Num startTime) 0 [])"

subsection \<open>offsetCurve in double arithmetic\<close>

text \<open>
  IEEE 754 binary64 rounding of a real: round to nearest, ties to even, with a 53-bit
  significand. The exponent range is not bounded in this model (no overflow to
  \<open>Infinity\<close>, no subnormal numbers); on normal doubles it is the rounding of the source's
  arithmetic.
\<close>

definition pow2 :: "int \<Rightarrow> real" where
  "pow2 k = (if 0 \<le> k then 2 ^ nat k else 1 / 2 ^ nat (- k))"

definition round_half_even :: "real \<Rightarrow> int" where
  "round_half_even x =
     (let f = \<lfloor>x\<rfloor>; r = x - of_int f
      in if r < 1/2 then f else if 1/2 < r then f + 1 else if even f then f else f + 1)"

definition round_double :: "real \<Rightarrow> real" where
  "round_double x =
     (if x = 0 then 0
      else (let e = \<lfloor>log 2 \<bar>x\<bar>\<rfloor> - 52
            in sgn x * of_int (round_half_even (\<bar>x\<bar> / pow2 e)) * pow2 e))"

text \<open>
  \<open>offsetCurve\<close> once more, with every arithmetic result of the source rounded by \<open>fl\<close>
  (comparisons, \<open>Math.min\<close> and \<open>Math.max\<close> are exact). With \<open>fl\<close> the identity this is
  \<open>offsetCurve\<close> above; with \<open>fl = round_double\<close> it is the arithmetic of the source.
\<close>

definition shift_point_fl :: "(real \<Rightarrow> real) \<Rightarrow> real \<Rightarrow> CurvePoint \<Rightarrow> CurvePoint" where
  "shift_point_fl fl offset point = \<lparr>time = fl (time point + offset), val = val point\<rparr>"

definition interpolate_at_fl :: "(real \<Rightarrow> real) \<Rightarrow> Curve \<Rightarrow> real \<Rightarrow> error + CurvePoint" where
  "interpolate_at_fl fl offsetCurveMap t =
     (case select_pair offsetCurveMap t of
        (None, _) \<Rightarrow> Inl TypeError
      | (Some beforePoint, None) \<Rightarrow> Inl TypeError
      | (Some beforePoint, Some afterPoint) \<Rightarrow>
          if time beforePoint = time afterPoint then Inr \<lparr>time = t, val = val beforePoint\<rparr>
          else
            (case js_div (fl (t - time beforePoint)) (fl (time afterPoint - time beforePoint)) of
               Inl e \<Rightarrow> Inl e
             | Inr q \<Rightarrow>
                 (let r = fl q;
                      v = fl (val beforePoint + fl (r * fl (val afterPoint - val beforePoint)))
                  in Inr \<lparr>time = t, val = max 0 (min 1 v)\<rparr>)))"

definition offsetCurve_fl :: "(real \<Rightarrow> real) \<Rightarrow> Curve \<Rightarrow> real \<Rightarrow> real list \<Rightarrow> error + Curve" where
  "offsetCurve_fl fl curve offset originalTimes =
     (let offsetCurveMap = map (shift_point_fl fl offset) curve
      in map_result (interpolate_at_fl fl offsetCurveMap) originalTimes)"

section \<open>Properties\<close>

subsection \<open>The generator loops\<close>

lemma generateHypeCycle_loop_pos:
  "0 < points \<Longrightarrow>
   generateHypeCycle_loop totalRange points startTime i curve =
     Inr (curve @ map (hype_sample totalRange points startTime) [i..points])"
proof (induction totalRange points startTime i curve rule: generateHypeCycle_loop.induct)
  case (1 totalRange points startTime i curve)
  show ?case
  proof (cases "i \<le> points")
    case True
    have d: "js_div (of_int i) (of_int points) = Inr (of_int i / of_int points)"
      using "1.prems" by (simp add: js_div_def)
    have "generateHypeCycle_loop totalRange points startTime i curve =
          generateHypeCycle_loop totalRange points startTime (i + 1)
            (curve @ [hype_sample totalRange points startTime i])"
      using True d by (subst generateHypeCycle_loop.simps) (simp add: hype_sample_def Let_def)
    also have "\<dots> = Inr ((curve @ [hype_sample totalRange points startTime i]) @
         map (hype_sample totalRange points startTime) [i + 1..points])"
      using "1.IH"[OF True d refl] "1.prems" by (simp add: hype_sample_def Let_def)
    finally show ?thesis using True by (simp add: upto_rec1[of i points])
  next
    case False
    then show ?thesis by (subst generateHypeCycle_loop.simps) simp
  qed
qed

lemma generateSCurve_loop_pos:
  "0 < points \<Longrightarrow>
   generateSCurve_loop timeRange totalRange points startTime i curve =
     Inr (curve @ map (scurve_sample timeRange totalRange points startTime) [i..points])"
proof (induction timeRange totalRange points startTime i curve rule: generateSCurve_loop.induct)
  case (1 timeRange totalRange points startTime i curve)
  show ?case
  proof (cases "i \<le> points")
    case True
    have d: "js_div (of_int i) (of_int points) = Inr (of_int i / of_int points)"
      using "1.prems" by (simp add: js_div_def)
    have "generateSCurve_loop timeRange totalRange points startTime i curve =
          generateSCurve_loop timeRange totalRange points startTime (i + 1)
            (curve @ [scurve_sample timeRange totalRange points startTime i])"
      using True d by (subst generateSCurve_loop.simps) (simp add: scurve_sample_def Let_def)
    also have "\<dots> = Inr ((curve @ [scurve_sample timeRange totalRange points startTime i]) @
         map (scurve_sample timeRange totalRange points startTime) [i + 1..points])"
      using "1.IH"[OF True d refl] "1.prems" by (simp add: scurve_sample_def Let_def)
    finally show ?thesis using True by (simp add: upto_rec1[of i points])
  next
    case False
    then show ?thesis by (subst generateSCurve_loop.simps) simp
  qed
qed

lemma generateHypeCycle_pos:
  "0 < points \<Longrightarrow>
   generateHypeCycle timeRange points startTime =
     Inr (map (hype_sample (timeRange + \<bar>startTime\<bar>) points startTime) [0..points])"
  by (simp add: generateHypeCycle_def Let_def generateHypeCycle_loop_pos)

lemma generateSCurve_pos:
  "0 < points \<Longrightarrow>
   generateSCurve timeRange points startTime =
     Inr (map (scurve_sample timeRange (timeRange + \<bar>startTime\<bar>) points startTime) [0..points])"
  by (simp add: generateSCurve_def Let_def generateSCurve_loop_pos)

lemma generateHypeCycle_neg: "points < 0 \<Longrightarrow> generateHypeCycle timeRange points startTime = Inr []"
  unfolding generateHypeCycle_def Let_def
  by (subst generateHypeCycle_loop.simps) simp

lemma time_hype_sample:
  "time (hype_sample totalRange points startTime i) =
     of_int i / of_int points * totalRange + startTime"
  by (simp add: hype_sample_def Let_def)

lemma val_hype_sample_unit:
  "0 \<le> val (hype_sample totalRange points startTime i) \<and>
   val (hype_sample totalRange points startTime i) \<le> 1"
  by (simp add: hype_sample_def Let_def)

lemma time_scurve_sample:
  "time (scurve_sample timeRange totalRange points startTime i) =
     of_int i / of_int points * totalRange + startTime"
  by (simp add: scurve_sample_def Let_def)

lemma grid_strict_mono:
  fixes totalRange :: real
  assumes "0 < points" "0 < totalRange" "i < j"
  shows "of_int i / of_int points * totalRange + startTime
       < of_int j / of_int points * totalRange + startTime"
proof -
  have "(of_int i :: real) / of_int points < of_int j / of_int points"
    using assms(1,3) by (simp add: divide_strict_right_mono)
  then have "of_int i / of_int points * totalRange < of_int j / of_int points * totalRange"
    using assms(2) by (rule mult_strict_right_mono)
  then show ?thesis by simp
qed

lemma hype_sample_time_mono:
  assumes "0 < points" "0 < totalRange" "i < j"
  shows "time (hype_sample totalRange points startTime i)
       < time (hype_sample totalRange points startTime j)"
  unfolding time_hype_sample by (rule grid_strict_mono[OF assms])

lemma scurve_sample_time_mono:
  assumes "0 < points" "0 < totalRange" "i < j"
  shows "time (scurve_sample timeRange totalRange points startTime i)
       < time (scurve_sample timeRange totalRange points startTime j)"
  unfolding time_scurve_sample by (rule grid_strict_mono[OF assms])

lemma sorted_hype_times:
  assumes "0 < points" "0 < totalRange"
  shows "sorted_wrt (<) (map time (map (hype_sample totalRange points startTime) [i..j]))"
proof -
  have "sorted_wrt (\<lambda>a b. time (hype_sample totalRange points startTime a)
                        < time (hype_sample totalRange points startTime b)) [i..j]"
    by (rule sorted_wrt_mono_rel[OF _ sorted_wrt_upto])
       (rule hype_sample_time_mono[OF assms])
  then show ?thesis by (simp add: sorted_wrt_map)
qed

lemma sorted_scurve_times:
  assumes "0 < points" "0 < totalRange"
  shows "sorted_wrt (<) (map time (map (scurve_sample timeRange totalRange points startTime) [i..j]))"
proof -
  have "sorted_wrt (\<lambda>a b. time (scurve_sample timeRange totalRange points startTime a)
                        < time (scurve_sample timeRange totalRange points startTime b)) [i..j]"
    by (rule sorted_wrt_mono_rel[OF _ sorted_wrt_upto])
       (rule scurve_sample_time_mono[OF assms])
  then show ?thesis by (simp add: sorted_wrt_map)
qed

lemma scurve_value_open_unit: "0 < scurve_value timeRange t \<and> scurve_value timeRange t < 1"
proof -
  have "0 < exp (- 0.5 * (t - timeRange * 0.4))" by simp
  then show ?thesis by (simp add: scurve_value_def Let_def add_pos_pos)
qed

subsection \<open>Claims about the generators\<close>

text \<open>
  C1. For every \<open>startTime\<close>, positive \<open>timeRange\<close> and integer \<open>points \<ge> 1\<close>,
  \<open>generateHypeCycle\<close> returns exactly \<open>points + 1\<close> points; the \<open>i\<close>-th time is
  \<open>startTime + (i / points) * (timeRange + \<bar>startTime\<bar>)\<close>; the times are strictly increasing;
  every value lies in \<open>[0, 1]\<close>.
\<close>

theorem generateHypeCycle_grid:
  assumes "0 < timeRange" and "1 \<le> points"
  shows "\<exists>curve. generateHypeCycle timeRange points startTime = Inr curve \<and>
           length curve = nat points + 1 \<and>
           (\<forall>i < length curve.
              time (curve ! i) =
                startTime + (real i / of_int points) * (timeRange + \<bar>startTime\<bar>)) \<and>
           sorted_wrt (<) (map time curve) \<and>
           (\<forall>p \<in> set curve. 0 \<le> val p \<and> val p \<le> 1)"
proof -
  let ?T = "timeRange + \<bar>startTime\<bar>"
  let ?c = "map (hype_sample ?T points startTime) [0..points]"
  have pos: "0 < points" and T: "0 < ?T" using assms by simp_all
  have g: "generateHypeCycle timeRange points startTime = Inr ?c"
    by (rule generateHypeCycle_pos[OF pos])
  have len: "length ?c = nat points + 1" using pos by simp
  have nth: "time (?c ! i) = startTime + (real i / of_int points) * ?T" if "i < length ?c" for i
  proof -
    have "[0..points] ! i = 0 + int i" using that pos by (intro nth_upto) simp
    then show ?thesis using that by (simp add: time_hype_sample)
  qed
  have srt: "sorted_wrt (<) (map time ?c)" by (rule sorted_hype_times[OF pos T])
  have rng: "\<forall>p \<in> set ?c. 0 \<le> val p \<and> val p \<le> 1"
    using val_hype_sample_unit by auto
  show ?thesis using g len nth srt rng by blast
qed

theorem generateHypeCycle_grid_witness:
  "(0::real) < 20 \<and> (1::int) \<le> 4 \<and>
   (\<exists>curve. generateHypeCycle 20 4 (-10) = Inr curve \<and> length curve = 5 \<and>
      (\<forall>i < length curve. time (curve ! i) = - 10 + (real i / 4) * 30) \<and>
      sorted_wrt (<) (map time curve) \<and>
      (\<forall>p \<in> set curve. 0 \<le> val p \<and> val p \<le> 1))"
  using generateHypeCycle_grid[of 20 4 "-10"] by simp

text \<open>
  C9. For every \<open>startTime\<close>, \<open>timeRange\<close> and \<open>points \<ge> 1\<close>, every point of
  \<open>generateSCurve\<close> has the value \<open>1 / (1 + exp (- 0.5 * (t - 0.4 * timeRange)))\<close> at its
  time \<open>t\<close>: the midpoint depends on \<open>timeRange\<close> alone, nothing is clamped, and every
  value lies strictly between 0 and 1. (Positivity of \<open>timeRange\<close> is not needed.)
\<close>

theorem generateSCurve_logistic:
  assumes "1 \<le> points"
  shows "\<exists>curve. generateSCurve timeRange points startTime = Inr curve \<and>
           length curve = nat points + 1 \<and>
           (\<forall>p \<in> set curve.
              val p = 1 / (1 + exp (- 0.5 * (time p - 0.4 * timeRange))) \<and>
              0 < val p \<and> val p < 1)"
proof -
  let ?T = "timeRange + \<bar>startTime\<bar>"
  let ?c = "map (scurve_sample timeRange ?T points startTime) [0..points]"
  have pos: "0 < points" using assms by simp
  have g: "generateSCurve timeRange points startTime = Inr ?c"
    by (rule generateSCurve_pos[OF pos])
  have len: "length ?c = nat points + 1" using pos by simp
  have v: "val p = 1 / (1 + exp (- 0.5 * (time p - 0.4 * timeRange))) \<and> 0 < val p \<and> val p < 1"
    if "p \<in> set ?c" for p
  proof -
    from that obtain i where p: "p = scurve_sample timeRange ?T points startTime i" by auto
    have "val p = scurve_value timeRange (time p)" by (simp add: p scurve_sample_def Let_def)
    then show ?thesis using scurve_value_open_unit[of timeRange "time p"]
      by (simp add: scurve_value_def Let_def mult.commute)
  qed
  show ?thesis using g len v by blast
qed

theorem generateSCurve_logistic_witness:
  "(1::int) \<le> 4 \<and>
   (\<exists>curve. generateSCurve 20 4 (-10) = Inr curve \<and> length curve = 5 \<and>
      (\<forall>p \<in> set curve.
         val p = 1 / (1 + exp (- 0.5 * (time p - 0.4 * 20))) \<and> 0 < val p \<and> val p < 1))"
  using generateSCurve_logistic[of 4 20 "-10"] by simp

subsection \<open>blendCurves\<close>

lemma blendCurves_loop_eq:
  "blendCurves_loop curve1 curve2 blendRatio minLength i blended =
     blended @ map (\<lambda>j. \<lparr>time = time (curve1 ! j),
        val = val (curve1 ! j) * (1 - blendRatio) + val (curve2 ! j) * blendRatio\<rparr>) [i..<minLength]"
proof (induction curve1 curve2 blendRatio minLength i blended rule: blendCurves_loop.induct)
  case (1 curve1 curve2 blendRatio minLength i blended)
  show ?case
  proof (cases "i < minLength")
    case True
    show ?thesis
      using True "1.IH"[OF True refl]
      by (subst blendCurves_loop.simps) (simp add: Let_def upt_conv_Cons)
  next
    case False
    then show ?thesis by (subst blendCurves_loop.simps) simp
  qed
qed

lemma blendCurves_eq:
  "blendCurves curve1 curve2 blendRatio =
     map (\<lambda>j. \<lparr>time = time (curve1 ! j),
        val = val (curve1 ! j) * (1 - blendRatio) + val (curve2 ! j) * blendRatio\<rparr>)
       [0..<min (length curve1) (length curve2)]"
  by (simp add: blendCurves_def Let_def blendCurves_loop_eq)

lemma length_blendCurves:
  "length (blendCurves curve1 curve2 blendRatio) = min (length curve1) (length curve2)"
  by (simp add: blendCurves_eq)

lemma nth_blendCurves:
  "i < length curve1 \<Longrightarrow> i < length curve2 \<Longrightarrow>
   blendCurves curve1 curve2 blendRatio ! i =
     \<lparr>time = time (curve1 ! i),
      val = val (curve1 ! i) * (1 - blendRatio) + val (curve2 ! i) * blendRatio\<rparr>"
  by (simp add: blendCurves_eq)

lemma map_time_blendCurves:
  "length curve1 = length curve2 \<Longrightarrow>
   map time (blendCurves curve1 curve2 blendRatio) = map time curve1"
  by (rule nth_equalityI) (simp_all add: length_blendCurves nth_blendCurves)

text \<open>
  C5. For curves \<open>A\<close> and \<open>B\<close> of equal length with the same time at every index,
  \<open>blendCurves A B 0 = A\<close>, \<open>blendCurves A B 1 = B\<close>, and \<open>blendCurves A B 0.5\<close> is the
  pointwise average: times from \<open>A\<close>, value \<open>(A[i].value + B[i].value) / 2\<close>.
\<close>

theorem blendCurves_endpoints:
  assumes "length A = length B" and "map time A = map time B"
  shows "blendCurves A B 0 = A \<and> blendCurves A B 1 = B \<and>
         blendCurves A B 0.5 = map2 (\<lambda>a b. \<lparr>time = time a, val = (val a + val b) / 2\<rparr>) A B"
proof -
  have t: "time (A ! i) = time (B ! i)" if "i < length A" for i
  proof -
    have "map time A ! i = map time B ! i" using assms(2) by simp
    then show ?thesis using that assms(1) by simp
  qed
  have a: "blendCurves A B 0 = A"
    by (rule nth_equalityI) (simp_all add: length_blendCurves nth_blendCurves assms(1))
  have b: "blendCurves A B 1 = B"
    by (rule nth_equalityI) (simp_all add: length_blendCurves nth_blendCurves assms(1) t)
  have c: "blendCurves A B 0.5 = map2 (\<lambda>a b. \<lparr>time = time a, val = (val a + val b) / 2\<rparr>) A B"
    by (rule nth_equalityI)
       (simp_all add: length_blendCurves nth_blendCurves assms(1) field_simps)
  show ?thesis using a b c by simp
qed

theorem blendCurves_endpoints_witness:
  "blendCurves [\<lparr>time = 0, val = 0.2\<rparr>, \<lparr>time = 1, val = 0.6\<rparr>]
               [\<lparr>time = 0, val = 0.4\<rparr>, \<lparr>time = 1, val = 1\<rparr>] 0
     = [\<lparr>time = 0, val = 0.2\<rparr>, \<lparr>time = 1, val = 0.6\<rparr>] \<and>
   blendCurves [\<lparr>time = 0, val = 0.2\<rparr>, \<lparr>time = 1, val = 0.6\<rparr>]
               [\<lparr>time = 0, val = 0.4\<rparr>, \<lparr>time = 1, val = 1\<rparr>] 1
     = [\<lparr>time = 0, val = 0.4\<rparr>, \<lparr>time = 1, val = 1\<rparr>] \<and>
   blendCurves [\<lparr>time = 0, val = 0.2\<rparr>, \<lparr>time = 1, val = 0.6\<rparr>]
               [\<lparr>time = 0, val = 0.4\<rparr>, \<lparr>time = 1, val = 1\<rparr>] 0.5
     = [\<lparr>time = 0, val = 0.3\<rparr>, \<lparr>time = 1, val = 0.8\<rparr>]"
  using blendCurves_endpoints[of "[\<lparr>time = 0, val = 0.2\<rparr>, \<lparr>time = 1, val = 0.6\<rparr>]"
                                 "[\<lparr>time = 0, val = 0.4\<rparr>, \<lparr>time = 1, val = 1\<rparr>]"]
  by simp

subsection \<open>The branch boundaries of the hype-cycle model\<close>

lemma exp_half_le: "exp (1/2 :: real) \<le> 7/4"
proof -
  have "(exp (1/2 :: real))\<^sup>2 = exp 1"
    by (simp add: power2_eq_square flip: exp_add)
  also have "\<dots> \<le> 3" by (rule exp_le)
  also have "\<dots> \<le> (7/4 :: real)\<^sup>2" by (simp add: power2_eq_square)
  finally show ?thesis by (rule power2_le_imp_le) simp
qed

lemma hype_rise_0: "hype_rise 0 = 0.1"
  by (simp add: hype_rise_def)

lemma hype_decline_3: "hype_decline 3 = 0.95"
  by (simp add: hype_decline_def Let_def)

lemma hype_rise_3_less: "hype_rise 3 < 0.9"
proof -
  define b :: real where "b = exp (- (1/8))"
  define a :: real where "a = (1 - exp (- (9/2))) * b"
  have "1 + (1/8 :: real) \<le> exp (1/8)" by (rule exp_ge_add_one_self)
  then have "inverse (exp (1/8 :: real)) \<le> inverse (9/8)"
    by (intro le_imp_inverse_le) simp_all
  then have b: "b \<le> 8/9" by (simp add: b_def exp_minus)
  have bpos: "0 < b" by (simp add: b_def)
  have "(1 - exp (- (9/2) :: real)) * b < 1 * b"
    using bpos by (intro mult_strict_right_mono) simp_all
  then have a: "a < 8/9" using b by (simp add: a_def)
  have "hype_rise 3 = 0.1 + 0.9 * a"
    by (simp add: hype_rise_def power2_eq_square a_def b_def)
  then show ?thesis using a by linarith
qed

lemma hype_decline_10_less: "hype_decline 10 < 0.18"
proof -
  have "(12/5 :: real) \<le> exp (7/5)" using exp_ge_add_one_self[of "7/5 :: real"] by simp
  then have "(12/5 :: real) ^ 4 \<le> exp (7/5) ^ 4" by (intro power_mono) simp_all
  also have "exp (7/5 :: real) ^ 4 = exp (28/5)"
    using exp_of_nat_mult[of 4 "7/5 :: real"] by simp
  finally have "(20736/625 :: real) \<le> exp (28/5)" by (simp add: power4_eq_xxxx)
  then have "inverse (exp (28/5 :: real)) \<le> inverse (20736/625)"
    by (intro le_imp_inverse_le) simp_all
  then have "exp (- (28/5) :: real) \<le> 625/20736" by (simp add: exp_minus)
  moreover have "hype_decline 10 = 0.15 + 0.8 * exp (- (28/5))"
    by (simp add: hype_decline_def Let_def)
  ultimately show ?thesis by simp
qed

lemma hype_recovery_10_greater: "0.18 < hype_recovery 10"
proof -
  define r :: real where "r = 1 / (1 + exp (5/2))"
  have "exp (1/2 :: real) ^ 5 \<le> (7/4) ^ 5" using exp_half_le by (intro power_mono) simp_all
  moreover have "exp (1/2 :: real) ^ 5 = exp (5/2)"
    using exp_of_nat_mult[of 5 "1/2 :: real"] by simp
  ultimately have "exp (5/2 :: real) \<le> 16807/1024" by (simp add: power_numeral_reduce)
  then have "1 + exp (5/2 :: real) \<le> 17831/1024" by simp
  then have "inverse (17831/1024) \<le> inverse (1 + exp (5/2 :: real))"
    by (intro le_imp_inverse_le) (simp_all add: add_pos_pos)
  then have r: "1024/17831 \<le> r" by (simp add: r_def inverse_eq_divide)
  have "hype_recovery 10 = 3/20 + 11/20 * r"
    by (simp add: hype_recovery_def Let_def r_def)
  moreover have "9/50 < 3/20 + 11/20 * r" using r by linarith
  ultimately show ?thesis by simp
qed

lemma tendsto_left_of_eq:
  fixes f g :: "real \<Rightarrow> real"
  assumes "isCont g a" and "\<And>x. x < a \<Longrightarrow> f x = g x"
  shows "(f \<longlongrightarrow> g a) (at_left a)"
proof -
  have "(g \<longlongrightarrow> g a) (at_left a)"
    using assms(1) by (simp add: isCont_def filterlim_at_split)
  moreover have "eventually (\<lambda>x. g x = f x) (at_left a)"
    by (simp add: eventually_at_filter assms(2))
  ultimately show ?thesis by (rule Lim_transform_eventually)
qed

lemma tendsto_right_of_eq:
  fixes f g :: "real \<Rightarrow> real"
  assumes "isCont g a" and "a < b" and "\<And>x. a < x \<Longrightarrow> x \<le> b \<Longrightarrow> f x = g x"
  shows "(f \<longlongrightarrow> g a) (at_right a)"
proof -
  have "(g \<longlongrightarrow> g a) (at_right a)"
    using assms(1) by (simp add: isCont_def filterlim_at_split)
  moreover have "eventually (\<lambda>x. g x = f x) (at_right a)"
    unfolding eventually_at_right[OF assms(2)]
    using assms(2,3) by (intro exI[of _ b]) auto
  ultimately show ?thesis by (rule Lim_transform_eventually)
qed

lemma not_isCont_left_jump:
  fixes f :: "real \<Rightarrow> real"
  assumes "(f \<longlongrightarrow> l) (at_left a)" and "f a \<noteq> l"
  shows "\<not> isCont f a"
proof
  assume "isCont f a"
  then have "(f \<longlongrightarrow> f a) (at_left a)" by (simp add: isCont_def filterlim_at_split)
  then have "f a = l" using assms(1) by (intro tendsto_unique[of "at_left a" f]) simp_all
  then show False using assms(2) by simp
qed

lemma not_isCont_right_jump:
  fixes f :: "real \<Rightarrow> real"
  assumes "(f \<longlongrightarrow> l) (at_right a)" and "f a \<noteq> l"
  shows "\<not> isCont f a"
proof
  assume "isCont f a"
  then have "(f \<longlongrightarrow> f a) (at_right a)" by (simp add: isCont_def filterlim_at_split)
  then have "f a = l" using assms(1) by (intro tendsto_unique[of "at_right a" f]) simp_all
  then show False using assms(2) by simp
qed

lemma isCont_hype_baseline: "isCont hype_baseline a"
  by (simp add: hype_baseline_def[abs_def])

lemma isCont_hype_decline: "isCont hype_decline a"
  unfolding hype_decline_def[abs_def] Let_def by (intro continuous_intros)

lemma isCont_hype_recovery: "isCont hype_recovery a"
  unfolding hype_recovery_def[abs_def] Let_def
  by (intro continuous_intros) (simp_all add: add_pos_pos less_imp_neq[THEN not_sym])

lemma hype_value_left_0: "(hype_value \<longlongrightarrow> 0.05) (at_left 0)"
  using tendsto_left_of_eq[where g = hype_baseline and a = 0 and f = hype_value]
  by (simp add: isCont_hype_baseline hype_value_def hype_baseline_def)

lemma hype_value_right_3: "(hype_value \<longlongrightarrow> 0.95) (at_right 3)"
  using tendsto_right_of_eq[where g = hype_decline and a = 3 and b = 10 and f = hype_value]
  by (simp add: isCont_hype_decline hype_value_def hype_decline_3)

lemma hype_value_right_10: "(hype_value \<longlongrightarrow> hype_recovery 10) (at_right 10)"
  using tendsto_right_of_eq[where g = hype_recovery and a = 10 and b = 11 and f = hype_value]
  by (simp add: isCont_hype_recovery hype_value_def)

lemma hype_value_at_0: "hype_value 0 = 0.1"
  by (simp add: hype_value_def hype_rise_0)

lemma hype_value_at_3: "hype_value 3 = hype_rise 3"
  by (simp add: hype_value_def)

lemma hype_value_at_10: "hype_value 10 = hype_decline 10"
  by (simp add: hype_value_def)

lemma tendsto_clamp:
  fixes f :: "real \<Rightarrow> real"
  assumes "(f \<longlongrightarrow> l) F"
  shows "((\<lambda>t. max 0 (min 1 (f t))) \<longlongrightarrow> max 0 (min 1 l)) F"
  by (intro tendsto_max tendsto_min tendsto_const assms)

lemma stored_value_not_continuous:
  "\<not> isCont (\<lambda>t. max 0 (min 1 (hype_value t))) 0 \<and>
   \<not> isCont (\<lambda>t. max 0 (min 1 (hype_value t))) 3 \<and>
   \<not> isCont (\<lambda>t. max 0 (min 1 (hype_value t))) 10"
proof (intro conjI)
  show "\<not> isCont (\<lambda>t. max 0 (min 1 (hype_value t))) 0"
    by (rule not_isCont_left_jump[OF tendsto_clamp[OF hype_value_left_0]])
       (simp add: hype_value_at_0)
  show "\<not> isCont (\<lambda>t. max 0 (min 1 (hype_value t))) 3"
    by (rule not_isCont_right_jump[OF tendsto_clamp[OF hype_value_right_3]])
       (use hype_rise_3_less in \<open>simp add: hype_value_at_3 max_def min_def\<close>)
  show "\<not> isCont (\<lambda>t. max 0 (min 1 (hype_value t))) 10"
    by (rule not_isCont_right_jump[OF tendsto_clamp[OF hype_value_right_10]])
       (use hype_decline_10_less hype_recovery_10_greater in
         \<open>simp add: hype_value_at_10 max_def min_def\<close>)
qed

text \<open>
  C7 (as amended). The generated function \<open>hype_value\<close> is not continuous at any of its
  three branch boundaries, because the adjacent branch formulas disagree there. At \<open>t = 0\<close>
  it tends to 0.05 from the left and is 0.1 at 0; at \<open>t = 3\<close> it is below 0.9 at 3 (the end
  of the rising branch) and tends to 0.95 from the right; at \<open>t = 10\<close> it is below 0.18 at
  10 (the end of the decline branch) and tends from the right to the start of the recovery
  branch, which is above 0.18. All these values lie in \<open>[0, 1]\<close>, where the clamp is the
  identity: the stored value \<open>max 0 (min 1 (hype_value t))\<close> jumps in the same way.
\<close>

theorem hype_value_jumps_at_boundaries:
  "(hype_value \<longlongrightarrow> 0.05) (at_left 0) \<and> hype_value 0 = 0.1 \<and>
   hype_value 3 < 0.9 \<and> (hype_value \<longlongrightarrow> 0.95) (at_right 3) \<and>
   hype_value 10 < 0.18 \<and> (hype_value \<longlongrightarrow> hype_recovery 10) (at_right 10) \<and>
   0.18 < hype_recovery 10 \<and>
   \<not> isCont hype_value 0 \<and> \<not> isCont hype_value 3 \<and> \<not> isCont hype_value 10 \<and>
   \<not> isCont (\<lambda>t. max 0 (min 1 (hype_value t))) 0 \<and>
   \<not> isCont (\<lambda>t. max 0 (min 1 (hype_value t))) 3 \<and>
   \<not> isCont (\<lambda>t. max 0 (min 1 (hype_value t))) 10 \<and>
   hype_baseline 0 = 0.05 \<and> hype_rise 0 = 0.1 \<and>
   hype_rise 3 < 0.9 \<and> hype_decline 3 = 0.95 \<and>
   hype_decline 10 < 0.18"
proof -
  have n0: "\<not> isCont hype_value 0"
    by (rule not_isCont_left_jump[OF hype_value_left_0]) (simp add: hype_value_at_0)
  have n3: "\<not> isCont hype_value 3"
    by (rule not_isCont_right_jump[OF hype_value_right_3])
       (use hype_rise_3_less in \<open>simp add: hype_value_at_3\<close>)
  have n10: "\<not> isCont hype_value 10"
    by (rule not_isCont_right_jump[OF hype_value_right_10])
       (use hype_decline_10_less hype_recovery_10_greater in \<open>simp add: hype_value_at_10\<close>)
  show ?thesis
    using n0 n3 n10 stored_value_not_continuous
      hype_value_left_0 hype_value_right_3 hype_value_right_10
      hype_rise_0 hype_rise_3_less hype_decline_3 hype_decline_10_less hype_recovery_10_greater
    by (simp add: hype_value_at_0 hype_value_at_3 hype_value_at_10 hype_baseline_def)
qed

text \<open>
  C7 as stated fails at the boundary \<open>t = 0\<close>: the left branch gives 0.05, the right
  branch gives 0.1.
\<close>

theorem hype_baseline_rise_counterexample: "hype_baseline 0 \<noteq> hype_rise 0"
  by (simp add: hype_baseline_def hype_rise_def)

subsection \<open>offsetCurve: the scan, the selected pair, the map\<close>

lemma find_bracket_Some:
  "find_bracket m t i = Some (b, a) \<Longrightarrow>
   \<exists>j. i \<le> j \<and> j + 1 < length m \<and> b = m ! j \<and> a = m ! (j + 1) \<and>
       time b \<le> t \<and> t \<le> time a"
proof (induction m t i rule: find_bracket.induct)
  case (1 m t i)
  show ?case
  proof (cases "int i < int (length m) - 1")
    case False
    with "1.prems" show ?thesis by (subst (asm) find_bracket.simps) simp
  next
    case True
    show ?thesis
    proof (cases "time (m ! i) \<le> t \<and> time (m ! (i + 1)) \<ge> t")
      case hit: True
      from "1.prems" True hit have "b = m ! i" "a = m ! (i + 1)"
        by (subst (asm) find_bracket.simps, simp)+
      with True hit show ?thesis by (intro exI[of _ i]) auto
    next
      case miss: False
      from "1.prems" True miss have "find_bracket m t (i + 1) = Some (b, a)"
        by (subst (asm) find_bracket.simps) auto
      from "1.IH"[OF True miss this] obtain j where
        "i + 1 \<le> j" "j + 1 < length m" "b = m ! j" "a = m ! (j + 1)" "time b \<le> t" "t \<le> time a"
        by blast
      then show ?thesis by (intro exI[of _ j]) auto
    qed
  qed
qed

lemma find_bracket_first:
  "i \<le> j \<Longrightarrow> j + 1 < length m \<Longrightarrow> time (m ! j) \<le> t \<Longrightarrow> t \<le> time (m ! (j + 1)) \<Longrightarrow>
   (\<And>k. i \<le> k \<Longrightarrow> k < j \<Longrightarrow> \<not> (time (m ! k) \<le> t \<and> t \<le> time (m ! (k + 1)))) \<Longrightarrow>
   find_bracket m t i = Some (m ! j, m ! (j + 1))"
proof (induction m t i rule: find_bracket.induct)
  case (1 m t i)
  have inr: "int i < int (length m) - 1" using "1.prems"(1,2) by simp
  show ?case
  proof (cases "i = j")
    case True
    then show ?thesis using inr "1.prems"(3,4) by (subst find_bracket.simps) simp
  next
    case False
    then have lt: "i < j" using "1.prems"(1) by simp
    have miss: "\<not> (time (m ! i) \<le> t \<and> time (m ! (i + 1)) \<ge> t)"
      using "1.prems"(5)[of i] lt by simp
    have "find_bracket m t (i + 1) = Some (m ! j, m ! (j + 1))"
      using lt "1.prems"(2,3,4,5) by (intro "1.IH"[OF inr miss]) simp_all
    then show ?thesis using inr miss by (subst find_bracket.simps) auto
  qed
qed

lemma find_bracket_None:
  "(\<And>k. i \<le> k \<Longrightarrow> k + 1 < length m \<Longrightarrow> \<not> (time (m ! k) \<le> t \<and> t \<le> time (m ! (k + 1)))) \<Longrightarrow>
   find_bracket m t i = None"
proof (induction m t i rule: find_bracket.induct)
  case (1 m t i)
  show ?case
  proof (cases "int i < int (length m) - 1")
    case False
    then show ?thesis by (subst find_bracket.simps) simp
  next
    case True
    have miss: "\<not> (time (m ! i) \<le> t \<and> time (m ! (i + 1)) \<ge> t)"
      using "1.prems"[of i] True by simp
    have "find_bracket m t (i + 1) = None"
      using "1.prems" by (intro "1.IH"[OF True miss]) simp_all
    then show ?thesis using True miss by (subst find_bracket.simps) auto
  qed
qed

lemma select_pair_nonempty:
  assumes "m \<noteq> []"
  shows "\<exists>b a. select_pair m t = (Some b, Some a)"
proof (cases "find_bracket m t 0")
  case None
  then show ?thesis using assms by (simp add: select_pair_def js_nth_def)
next
  case (Some p)
  then show ?thesis by (cases p) (simp add: select_pair_def)
qed

lemma select_pair_no_bracket:
  assumes "m \<noteq> []" and "find_bracket m t 0 = None"
  shows "select_pair m t = (Some (hd m), Some (last m))"
proof -
  have "nat (int (length m) - 1) = length m - 1" by simp
  then show ?thesis using assms
    by (simp add: select_pair_def js_nth_def hd_conv_nth last_conv_nth)
qed

lemma interpolate_at_pair:
  assumes "select_pair m t = (Some b, Some a)"
  shows "interpolate_at m t =
     Inr \<lparr>time = t,
          val = (if time b = time a then val b
                 else max 0 (min 1 (val b + (t - time b) / (time a - time b) * (val a - val b))))\<rparr>"
  using assms by (simp add: interpolate_at_def js_div_def Let_def)

lemma interpolate_at_nonempty:
  assumes "m \<noteq> []"
  shows "\<exists>p. interpolate_at m t = Inr p \<and> time p = t"
proof -
  from select_pair_nonempty[OF assms] obtain b a where "select_pair m t = (Some b, Some a)"
    by blast
  then show ?thesis by (simp add: interpolate_at_pair)
qed

lemma interpolate_at_not_NotFinite: "interpolate_at m t \<noteq> Inl NotFinite"
  by (auto simp: interpolate_at_def js_div_def Let_def split: prod.splits option.splits)

lemma map_result_Inr_iff: "map_result f xs = Inr ys \<longleftrightarrow> map f xs = map Inr ys"
proof (induction xs arbitrary: ys)
  case Nil
  then show ?case by auto
next
  case (Cons x xs)
  show ?case
  proof (cases "f x")
    case (Inl e)
    then show ?thesis by (cases ys) auto
  next
    case fx: (Inr y)
    show ?thesis
    proof (cases "map_result f xs")
      case (Inl e)
      then have "map f xs \<noteq> map Inr zs" for zs using Cons.IH[of zs] by simp
      then show ?thesis using fx Inl by (cases ys) auto
    next
      case (Inr zs)
      then have "map f xs = map Inr zs" using Cons.IH[of zs] by simp
      then show ?thesis using fx Inr by (cases ys) (auto simp: inj_map_eq_map)
    qed
  qed
qed

lemma map_result_Inl: "map_result f xs = Inl e \<Longrightarrow> \<exists>x \<in> set xs. f x = Inl e"
  by (induction xs) (auto split: sum.splits)

lemma map_result_total:
  "(\<And>x. x \<in> set xs \<Longrightarrow> \<exists>y. f x = Inr y) \<Longrightarrow> \<exists>ys. map_result f xs = Inr ys"
proof (induction xs)
  case Nil
  then show ?case by simp
next
  case (Cons x xs)
  from Cons.prems[of x] obtain y where "f x = Inr y" by auto
  moreover from Cons obtain ys where "map_result f xs = Inr ys" by auto
  ultimately show ?case by simp
qed

lemma map_result_nth:
  assumes "map_result f xs = Inr ys"
  shows "length ys = length xs" and "k < length xs \<Longrightarrow> f (xs ! k) = Inr (ys ! k)"
proof -
  have eq: "map f xs = map Inr ys" using assms by (simp add: map_result_Inr_iff)
  then show len: "length ys = length xs" by (metis length_map)
  show "f (xs ! k) = Inr (ys ! k)" if "k < length xs"
  proof -
    have "map f xs ! k = map Inr ys ! k" using eq by simp
    then show ?thesis using that len by simp
  qed
qed

lemma offsetCurve_nonempty:
  assumes "curve \<noteq> []"
  shows "\<exists>r. offsetCurve curve offset ts = Inr r \<and> map time r = ts"
proof -
  let ?m = "map (shift_point offset) curve"
  have ne: "?m \<noteq> []" using assms by simp
  have "\<exists>ys. map_result (interpolate_at ?m) ts = Inr ys"
    by (rule map_result_total) (use interpolate_at_nonempty[OF ne] in blast)
  then obtain r where r: "map_result (interpolate_at ?m) ts = Inr r" by blast
  have "map time r = ts"
  proof (rule nth_equalityI)
    show "length (map time r) = length ts" using map_result_nth(1)[OF r] by simp
  next
    fix k assume "k < length (map time r)"
    then have k: "k < length ts" using map_result_nth(1)[OF r] by simp
    from interpolate_at_nonempty[OF ne, of "ts ! k"] obtain p
      where "interpolate_at ?m (ts ! k) = Inr p" "time p = ts ! k" by blast
    then show "map time r ! k = ts ! k"
      using map_result_nth(2)[OF r k] k map_result_nth(1)[OF r] by simp
  qed
  then show ?thesis using r by (simp add: offsetCurve_def Let_def)
qed

lemma offsetCurve_not_NotFinite: "offsetCurve curve offset ts \<noteq> Inl NotFinite"
proof
  assume "offsetCurve curve offset ts = Inl NotFinite"
  then obtain t where "interpolate_at (map (shift_point offset) curve) t = Inl NotFinite"
    by (auto simp: offsetCurve_def Let_def dest: map_result_Inl)
  then show False using interpolate_at_not_NotFinite by blast
qed

subsection \<open>offsetCurve: zero offset on the curve's own grid\<close>

lemma shift_point_zero: "map (shift_point 0) curve = curve"
  by (induction curve) (simp_all add: shift_point_def)

lemma interpolate_at_own_time:
  assumes srt: "sorted_wrt (<) (map time c)"
    and rng: "\<forall>p \<in> set c. 0 \<le> val p \<and> val p \<le> 1"
    and k: "k < length c"
  shows "interpolate_at c (time (c ! k)) = Inr (c ! k)"
proof -
  have mono: "time (c ! i) < time (c ! j)" if "i < j" "j < length c" for i j
    using srt that by (simp add: sorted_wrt_map sorted_wrt_iff_nth_less)
  have vk: "0 \<le> val (c ! k)" "val (c ! k) \<le> 1" using rng k by simp_all
  let ?t = "time (c ! k)"
  consider (single) "length c = 1" | (first) "k = 0" "2 \<le> length c" | (later) "0 < k"
    using k by atomize_elim arith
  then show ?thesis
  proof cases
    case single
    then have k0: "k = 0" using k by simp
    have "find_bracket c ?t 0 = None" using single by (intro find_bracket_None) simp
    then have "select_pair c ?t = (Some (hd c), Some (last c))"
      using single by (intro select_pair_no_bracket) auto
    moreover have "hd c = c ! 0" "last c = c ! 0"
      using single by (simp_all add: hd_conv_nth last_conv_nth flip: length_0_conv)
    ultimately show ?thesis using k0 by (simp add: interpolate_at_pair)
  next
    case first
    have lt: "time (c ! 0) < time (c ! 1)" using first by (intro mono) simp_all
    have "find_bracket c ?t 0 = Some (c ! 0, c ! (0 + 1))"
      using first lt by (intro find_bracket_first) simp_all
    then have "select_pair c ?t = (Some (c ! 0), Some (c ! 1))" by (simp add: select_pair_def)
    then show ?thesis using first lt vk by (simp add: interpolate_at_pair)
  next
    case later
    then obtain j where j: "k = j + 1" by (cases k) simp_all
    have lt: "time (c ! j) < time (c ! (j + 1))" using k j by (intro mono) simp_all
    have "find_bracket c ?t 0 = Some (c ! j, c ! (j + 1))"
    proof (rule find_bracket_first)
      show "0 \<le> j" by simp
      show "j + 1 < length c" using k j by simp
      show "time (c ! j) \<le> ?t" using lt j by simp
      show "?t \<le> time (c ! (j + 1))" using j by simp
      fix i assume "0 \<le> i" "i < j"
      then have "time (c ! (i + 1)) < ?t"
        using k j by (cases "i + 1 = j") (auto intro: mono less_trans[OF _ lt])
      then show "\<not> (time (c ! i) \<le> ?t \<and> ?t \<le> time (c ! (i + 1)))" by simp
    qed
    then have sp: "select_pair c ?t = (Some (c ! j), Some (c ! k))"
      by (simp add: select_pair_def j)
    have ne: "time (c ! j) \<noteq> time (c ! k)" using lt j by simp
    then have "(time (c ! k) - time (c ! j)) / (time (c ! k) - time (c ! j)) = 1" by simp
    then show ?thesis using ne vk by (simp add: interpolate_at_pair[OF sp])
  qed
qed

lemma offsetCurve_zero_identity:
  assumes "sorted_wrt (<) (map time c)" and "\<forall>p \<in> set c. 0 \<le> val p \<and> val p \<le> 1"
  shows "offsetCurve c 0 (map time c) = Inr c"
proof -
  have "map (interpolate_at c) (map time c) = map Inr c"
    by (rule nth_equalityI) (simp_all add: interpolate_at_own_time[OF assms])
  then show ?thesis by (simp add: offsetCurve_def Let_def shift_point_zero map_result_Inr_iff)
qed

subsection \<open>offsetCurve: the division guard and totality\<close>

text \<open>
  C8 (as amended). On no input does \<open>offsetCurve\<close> divide by zero; for every non-empty
  curve it returns one point per reference time, at that time. Whenever the selected pair
  has identical times the value of \<open>beforePoint\<close> is returned directly, and otherwise the
  divisor \<open>afterPoint.time - beforePoint.time\<close> is non-zero and the quotient is a real.
\<close>

theorem offsetCurve_guarded_division:
  "offsetCurve curve offset originalTimes \<noteq> Inl NotFinite \<and>
   (curve \<noteq> [] \<longrightarrow>
      (\<exists>r. offsetCurve curve offset originalTimes = Inr r \<and> map time r = originalTimes)) \<and>
   (select_pair (map (shift_point offset) curve) t = (Some beforePoint, Some afterPoint) \<longrightarrow>
      (if time beforePoint = time afterPoint
       then interpolate_at (map (shift_point offset) curve) t =
              Inr \<lparr>time = t, val = val beforePoint\<rparr>
       else time afterPoint - time beforePoint \<noteq> 0 \<and>
            js_div (t - time beforePoint) (time afterPoint - time beforePoint) =
              Inr ((t - time beforePoint) / (time afterPoint - time beforePoint))))"
proof -
  have "interpolate_at (map (shift_point offset) curve) t = Inr \<lparr>time = t, val = val beforePoint\<rparr>"
    if "select_pair (map (shift_point offset) curve) t = (Some beforePoint, Some afterPoint)"
      and "time beforePoint = time afterPoint"
    using that by (simp add: interpolate_at_pair)
  then show ?thesis
    using offsetCurve_not_NotFinite[of curve offset originalTimes]
      offsetCurve_nonempty[of curve offset originalTimes]
    by (simp add: js_div_def)
qed

theorem offsetCurve_guarded_division_witness:
  "offsetCurve [\<lparr>time = 0, val = 0.2\<rparr>, \<lparr>time = 0, val = 0.6\<rparr>] 1 [1] \<noteq> Inl NotFinite \<and>
   (\<exists>r. offsetCurve [\<lparr>time = 0, val = 0.2\<rparr>, \<lparr>time = 0, val = 0.6\<rparr>] 1 [1] = Inr r \<and>
        map time r = [1]) \<and>
   select_pair (map (shift_point 1) [\<lparr>time = 0, val = 0.2\<rparr>, \<lparr>time = 0, val = 0.6\<rparr>]) 1 =
     (Some \<lparr>time = 1, val = 0.2\<rparr>, Some \<lparr>time = 1, val = 0.6\<rparr>) \<and>
   interpolate_at (map (shift_point 1) [\<lparr>time = 0, val = 0.2\<rparr>, \<lparr>time = 0, val = 0.6\<rparr>]) 1 =
     Inr \<lparr>time = 1, val = 0.2\<rparr>"
proof -
  have sp: "select_pair (map (shift_point 1) [\<lparr>time = 0, val = 0.2\<rparr>, \<lparr>time = 0, val = 0.6\<rparr>]) 1 =
     (Some \<lparr>time = 1, val = 0.2\<rparr>, Some \<lparr>time = 1, val = 0.6\<rparr>)"
    by (simp add: select_pair_def shift_point_def find_bracket.simps)
  show ?thesis
    using sp offsetCurve_guarded_division
      [of "[\<lparr>time = 0, val = 0.2\<rparr>, \<lparr>time = 0, val = 0.6\<rparr>]" 1 "[1]" 1
          "\<lparr>time = 1, val = 0.2\<rparr>" "\<lparr>time = 1, val = 0.6\<rparr>"]
    by simp
qed

text \<open>
  C8 as stated fails on the empty curve: with a reference time to interpolate at,
  \<open>offsetCurveMap[0]\<close> is \<open>undefined\<close> and reading its \<open>time\<close> throws, so the function is
  not total.
\<close>

theorem offsetCurve_empty_curve_counterexample:
  "offsetCurve [] 0 [0] = Inl TypeError"
  by (simp add: offsetCurve_def interpolate_at_def select_pair_def js_nth_def find_bracket.simps)

subsection \<open>offsetCurve: reference times outside the shifted curve\<close>

lemma interpolate_at_out_of_range:
  assumes ne: "m \<noteq> []" and srt: "sorted_wrt (<) (map time m)"
    and out: "t < time (hd m) \<or> time (last m) < t"
  shows "interpolate_at m t =
     Inr \<lparr>time = t,
          val = (if length m = 1 then val (hd m)
                 else max 0 (min 1 (val (hd m) +
                        (t - time (hd m)) / (time (last m) - time (hd m)) *
                        (val (last m) - val (hd m)))))\<rparr>"
proof -
  have mono: "time (m ! i) < time (m ! j)" if "i < j" "j < length m" for i j
    using srt that by (simp add: sorted_wrt_map sorted_wrt_iff_nth_less)
  have mono_le: "time (m ! i) \<le> time (m ! j)" if "i \<le> j" "j < length m" for i j
    using mono[of i j] that by (cases "i = j") simp_all
  have hd: "hd m = m ! 0" and last: "last m = m ! (length m - 1)"
    using ne by (simp_all add: hd_conv_nth last_conv_nth)
  have "find_bracket m t 0 = None"
  proof (rule find_bracket_None)
    fix k assume k: "k + 1 < length m"
    have "time (hd m) \<le> time (m ! k)" unfolding hd using k by (intro mono_le) simp_all
    moreover have "time (m ! (k + 1)) \<le> time (last m)"
      unfolding last using k by (intro mono_le) simp_all
    ultimately show "\<not> (time (m ! k) \<le> t \<and> t \<le> time (m ! (k + 1)))" using out by auto
  qed
  then have sp: "select_pair m t = (Some (hd m), Some (last m))"
    using ne by (intro select_pair_no_bracket)
  have "time (hd m) = time (last m) \<longleftrightarrow> length m = 1"
  proof (cases "length m = 1")
    case True
    then show ?thesis by (simp add: hd last)
  next
    case False
    then have "0 < length m - 1" using ne by (cases m) simp_all
    then have "time (m ! 0) < time (m ! (length m - 1))" by (intro mono) simp_all
    then show ?thesis using False by (simp add: hd last)
  qed
  then show ?thesis by (simp add: interpolate_at_pair[OF sp])
qed

text \<open>
  What the code does for a reference time outside the shifted curve: no bracketing pair is
  found, \<open>beforePoint\<close> and \<open>afterPoint\<close> keep their initial values (the first and the last
  shifted point), and the result is the value of the straight line through these two
  points, clamped to \<open>[0, 1]\<close>; for a single-point curve it is that point's value.
\<close>

lemma offsetCurve_out_of_range:
  assumes "curve \<noteq> []"
    and "sorted_wrt (<) (map time (map (shift_point offset) curve))"
    and "k < length ts"
    and "ts ! k < time (hd curve) + offset \<or> time (last curve) + offset < ts ! k"
  shows "\<exists>r. offsetCurve curve offset ts = Inr r \<and> length r = length ts \<and>
           r ! k =
             \<lparr>time = ts ! k,
              val = (if length curve = 1 then val (hd curve)
                     else max 0 (min 1 (val (hd curve) +
                            (ts ! k - (time (hd curve) + offset)) /
                            ((time (last curve) + offset) - (time (hd curve) + offset)) *
                            (val (last curve) - val (hd curve)))))\<rparr>"
proof -
  let ?m = "map (shift_point offset) curve"
  have ne: "?m \<noteq> []" using assms(1) by simp
  have hd: "hd ?m = shift_point offset (hd curve)" using assms(1) by (simp add: hd_map)
  have last: "last ?m = shift_point offset (last curve)" using assms(1) by (simp add: last_map)
  have out: "ts ! k < time (hd ?m) \<or> time (last ?m) < ts ! k"
    using assms(4) by (simp add: hd last shift_point_def)
  from offsetCurve_nonempty[OF assms(1), of offset ts] obtain r
    where r: "offsetCurve curve offset ts = Inr r" and tr: "map time r = ts" by blast
  then have mr: "map_result (interpolate_at ?m) ts = Inr r" by (simp add: offsetCurve_def Let_def)
  have len: "length r = length ts" by (rule map_result_nth(1)[OF mr])
  have "Inr (r ! k) = interpolate_at ?m (ts ! k)"
    using map_result_nth(2)[OF mr assms(3)] by simp
  also have "\<dots> = Inr \<lparr>time = ts ! k,
          val = (if length ?m = 1 then val (hd ?m)
                 else max 0 (min 1 (val (hd ?m) +
                        (ts ! k - time (hd ?m)) / (time (last ?m) - time (hd ?m)) *
                        (val (last ?m) - val (hd ?m)))))\<rparr>"
    by (rule interpolate_at_out_of_range[OF ne assms(2) out])
  finally show ?thesis using r len by (simp add: hd last shift_point_def)
qed

text \<open>
  C2 (code defect). The claim, that a reference time before the first or after the last
  shifted point gets the nearest boundary point's value, is what the source announces
  (\<open>// Find the closest points in the offset curve for interpolation\<close>) and what the
  in-range path does with adjacent points; the fallback misses it. For the curve
  \<open>(0, 0.2), (1, 0.6), (2, 0.4)\<close>, offset 0 and reference time 3 (after the last point)
  the code returns 0.5, the value of the line through the first and the last point. The
  nearest boundary point's value is 0.4, and extrapolating the nearest edge segment from
  \<open>(1, 0.6)\<close> to \<open>(2, 0.4)\<close> gives 0.2.
\<close>

theorem offsetCurve_out_of_range_failing_input:
  "offsetCurve [\<lparr>time = 0, val = 0.2\<rparr>, \<lparr>time = 1, val = 0.6\<rparr>, \<lparr>time = 2, val = 0.4\<rparr>] 0 [3]
     = Inr [\<lparr>time = 3, val = 0.5\<rparr>]"
  by (simp add: offsetCurve_def interpolate_at_def select_pair_def shift_point_def
      find_bracket.simps js_nth_def js_div_def)

subsection \<open>generateCombinedCurve\<close>

lemma generateCombinedCurve_pos:
  fixes timeRange startTime timeOffset blendRatio :: real and points :: int
  defines "h \<equiv> map (hype_sample (timeRange + \<bar>startTime\<bar>) points startTime) [0..points]"
    and "s0 \<equiv> map (scurve_sample timeRange (timeRange + \<bar>startTime\<bar>) points startTime) [0..points]"
  assumes pos: "0 < points"
  shows "\<exists>s. offsetCurve s0 timeOffset (map time h) = Inr s \<and> map time s = map time h \<and>
           generateCombinedCurve timeOffset blendRatio timeRange points startTime =
             Inr \<lparr>hypeCurve = h, sCurve = s, combinedCurve = blendCurves h s blendRatio\<rparr>"
proof -
  have "s0 \<noteq> []" using pos by (simp add: s0_def upto_rec1[of 0 points])
  from offsetCurve_nonempty[OF this, of timeOffset "map time h"] obtain s
    where s: "offsetCurve s0 timeOffset (map time h) = Inr s" "map time s = map time h" by blast
  have "generateCombinedCurve timeOffset blendRatio timeRange points startTime =
          Inr \<lparr>hypeCurve = h, sCurve = s, combinedCurve = blendCurves h s blendRatio\<rparr>"
    using s(1) generateHypeCycle_pos[OF pos, of timeRange startTime]
      generateSCurve_pos[OF pos, of timeRange startTime]
    by (simp add: generateCombinedCurve_def Let_def h_def s0_def)
  then show ?thesis using s by blast
qed

text \<open>
  C10. For every \<open>timeOffset\<close>, \<open>blendRatio\<close>, \<open>timeRange\<close>, \<open>startTime\<close> and
  \<open>points \<ge> 1\<close>, the three curves \<open>generateCombinedCurve\<close> returns have length
  \<open>points + 1\<close>, and the resampled S-curve and the combined curve carry, index by index,
  the times of the hype curve. (Positivity of \<open>timeRange\<close> is not needed.)
\<close>

theorem generateCombinedCurve_aligned:
  assumes "1 \<le> points"
  shows "\<exists>r. generateCombinedCurve timeOffset blendRatio timeRange points startTime = Inr r \<and>
           length (hypeCurve r) = nat points + 1 \<and>
           length (sCurve r) = nat points + 1 \<and>
           length (combinedCurve r) = nat points + 1 \<and>
           map time (sCurve r) = map time (hypeCurve r) \<and>
           map time (combinedCurve r) = map time (hypeCurve r)"
proof -
  let ?h = "map (hype_sample (timeRange + \<bar>startTime\<bar>) points startTime) [0..points]"
  have pos: "0 < points" using assms by simp
  from generateCombinedCurve_pos[OF pos, of timeRange startTime timeOffset blendRatio] obtain s
    where s: "map time s = map time ?h"
      and g: "generateCombinedCurve timeOffset blendRatio timeRange points startTime =
             Inr \<lparr>hypeCurve = ?h, sCurve = s, combinedCurve = blendCurves ?h s blendRatio\<rparr>"
    by blast
  have lh: "length ?h = nat points + 1" using pos by simp
  have ls: "length s = length ?h" using s by (metis length_map)
  have lc: "length (blendCurves ?h s blendRatio) = nat points + 1"
    using lh ls by (simp add: length_blendCurves)
  have tc: "map time (blendCurves ?h s blendRatio) = map time ?h"
    using ls by (intro map_time_blendCurves) simp
  show ?thesis using g lh ls lc s tc by simp
qed

theorem generateCombinedCurve_aligned_witness:
  "\<exists>r. generateCombinedCurve 2.5 0.3 20 100 (-10) = Inr r \<and>
       length (hypeCurve r) = 101 \<and> length (sCurve r) = 101 \<and> length (combinedCurve r) = 101 \<and>
       map time (sCurve r) = map time (hypeCurve r) \<and>
       map time (combinedCurve r) = map time (hypeCurve r)"
  using generateCombinedCurve_aligned[of 100 "2.5" "0.3" 20 "-10"] by simp

subsection \<open>The end-to-end example\<close>

lemma map_val_blendCurves_half:
  assumes "length curve1 = length curve2"
  shows "map val (blendCurves curve1 curve2 0.5) =
         map2 (\<lambda>a b. (a + b) / 2) (map val curve1) (map val curve2)"
  by (rule nth_equalityI)
     (simp_all add: length_blendCurves nth_blendCurves assms field_simps)

lemma upto_0_4: "[0..4::int] = [0, 1, 2, 3, 4]"
  by (simp add: upto.simps)

lemma scurve_samples_unit:
  "\<forall>p \<in> set (map (scurve_sample timeRange totalRange points startTime) xs).
     0 \<le> val p \<and> val p \<le> 1"
proof -
  have "0 \<le> val (scurve_sample timeRange totalRange points startTime i) \<and>
        val (scurve_sample timeRange totalRange points startTime i) \<le> 1" for i
    using scurve_value_open_unit[of timeRange]
    by (simp add: scurve_sample_def Let_def less_imp_le)
  then show ?thesis by simp
qed

text \<open>
  C3 (as amended). \<open>generateCombinedCurve(0, 0.5, 20, 4, -10)\<close> has the total range
  \<open>20 + \<bar>-10\<bar> = 30\<close>, so its grid is the 5 points \<open>-10, -2.5, 5, 12.5, 20\<close>. The hype
  curve has the baseline 0.05 at the two negative grid points \<open>-10\<close> and \<open>-2.5\<close>. The
  zero-offset resampled adoption curve is the generated S-curve itself, and the combined
  curve is, at every grid point, the average of the hype and the adoption value.
\<close>

theorem generateCombinedCurve_example:
  "\<exists>r. generateCombinedCurve 0 0.5 20 4 (-10) = Inr r \<and>
       map time (hypeCurve r) = [-10, -5/2, 5, 25/2, 20] \<and>
       val (hypeCurve r ! 0) = 0.05 \<and> val (hypeCurve r ! 1) = 0.05 \<and>
       generateSCurve 20 4 (-10) = Inr (sCurve r) \<and>
       map time (combinedCurve r) = map time (hypeCurve r) \<and>
       map val (combinedCurve r) =
         map2 (\<lambda>a b. (a + b) / 2) (map val (hypeCurve r)) (map val (sCurve r))"
proof -
  let ?h = "map (hype_sample (20 + \<bar>-10\<bar>) 4 (-10)) [0..4]"
  let ?s0 = "map (scurve_sample 20 (20 + \<bar>-10\<bar>) 4 (-10)) [0..4]"
  have th: "map time ?h = [-10, -5/2, 5, 25/2, 20]"
    by (simp add: upto_0_4 time_hype_sample)
  have ts: "map time ?s0 = map time ?h"
    by (simp add: time_hype_sample time_scurve_sample)
  have v0: "val (?h ! 0) = 0.05" and v1: "val (?h ! 1) = 0.05"
    by (simp_all add: upto_0_4 hype_sample_def Let_def hype_value_def hype_baseline_def)
  have srt: "sorted_wrt (<) (map time ?s0)" by (rule sorted_scurve_times) simp_all
  have id: "offsetCurve ?s0 0 (map time ?h) = Inr ?s0"
    unfolding ts[symmetric] by (rule offsetCurve_zero_identity[OF srt scurve_samples_unit])
  from generateCombinedCurve_pos[of 4 20 "-10" 0 "0.5"] obtain s
    where s: "offsetCurve ?s0 0 (map time ?h) = Inr s"
      and g: "generateCombinedCurve 0 0.5 20 4 (-10) =
               Inr \<lparr>hypeCurve = ?h, sCurve = s, combinedCurve = blendCurves ?h s 0.5\<rparr>"
    by auto
  have s_eq: "s = ?s0" using s id by simp
  have gs: "generateSCurve 20 4 (-10) = Inr ?s0" by (rule generateSCurve_pos) simp
  have tc: "map time (blendCurves ?h ?s0 0.5) = map time ?h"
    by (rule map_time_blendCurves) simp
  have vc: "map val (blendCurves ?h ?s0 0.5) =
              map2 (\<lambda>a b. (a + b) / 2) (map val ?h) (map val ?s0)"
    by (rule map_val_blendCurves_half) simp
  show ?thesis
    unfolding g s_eq using th v0 v1 gs tc vc by (intro exI[of _ "\<lparr>hypeCurve = ?h, sCurve = ?s0, combinedCurve = blendCurves ?h ?s0 0.5\<rparr>"]) simp
qed

text \<open>
  C3 as stated fails: the time grid of the example is \<open>-10, -2.5, 5, 12.5, 20\<close>, not
  \<open>-10, -5, 0, 5, 10\<close>.
\<close>

theorem generateCombinedCurve_example_counterexample:
  "map_sum id (map time \<circ> hypeCurve) (generateCombinedCurve 0 0.5 20 4 (-10)) =
     Inr [-10, -5/2, 5, 25/2, 20]"
proof -
  from generateCombinedCurve_pos[of 4 20 "-10" 0 "0.5"] obtain s
    where "generateCombinedCurve 0 0.5 20 4 (-10) =
               Inr \<lparr>hypeCurve = map (hype_sample (20 + \<bar>-10\<bar>) 4 (-10)) [0..4], sCurve = s,
                    combinedCurve = blendCurves (map (hype_sample (20 + \<bar>-10\<bar>) 4 (-10)) [0..4]) s 0.5\<rparr>"
    by auto
  then show ?thesis by (simp add: upto_0_4 time_hype_sample)
qed

subsection \<open>The generators on JavaScript numbers\<close>

lemma one_plus_exp_neq_0 [simp]: "1 + exp (x::real) \<noteq> 0"
  using exp_gt_zero[of x] by linarith

lemma hype_value_js_Num: "hype_value_js (Num x) = Num (hype_value x)"
  by (simp add: hype_value_js_def hype_value_def hype_baseline_def hype_rise_def
      hype_decline_def hype_recovery_def js_sub_def Let_def min_def)

lemma hype_value_js_NaN: "hype_value_js NaN = NaN"
  by (simp add: hype_value_js_def js_sub_def Let_def)

lemma scurve_value_js_Num: "scurve_value_js timeRange (Num x) = Num (scurve_value timeRange x)"
  by (simp add: scurve_value_js_def scurve_value_def js_sub_def Let_def)

lemma scurve_value_js_NaN: "scurve_value_js timeRange NaN = NaN"
  by (simp add: scurve_value_js_def js_sub_def Let_def)

lemma js_clamp_Num: "js_max (Num 0) (js_min (Num 1) (Num v)) = Num (max 0 (min 1 v))"
  by (simp add: max_def min_def)

lemma generateHypeCycle_js_loop_pos:
  "0 < points \<Longrightarrow>
   generateHypeCycle_js_loop (Num totalRange) points (Num startTime) i curve =
     curve @ map (js_point \<circ> hype_sample totalRange points startTime) [i..points]"
proof (induction "Num totalRange" points "Num startTime" i curve
       rule: generateHypeCycle_js_loop.induct)
  case (1 points i curve)
  show ?case
  proof (cases "i \<le> points")
    case True
    let ?t = "Num (of_int i / of_int points * totalRange + startTime)"
    have t: "js_add (js_mul (js_divide (Num (of_int i)) (Num (of_int points))) (Num totalRange))
               (Num startTime) = ?t"
      using "1.prems" by simp
    have p: "\<lparr>jtime = ?t, jval = js_max (Num 0) (js_min (Num 1) (hype_value_js ?t))\<rparr> =
             js_point (hype_sample totalRange points startTime i)"
      by (simp add: js_point_def hype_sample_def Let_def hype_value_js_Num js_clamp_Num)
    have "generateHypeCycle_js_loop (Num totalRange) points (Num startTime) i curve =
          generateHypeCycle_js_loop (Num totalRange) points (Num startTime) (i + 1)
            (curve @ [js_point (hype_sample totalRange points startTime i)])"
      using True by (subst generateHypeCycle_js_loop.simps) (simp only: if_True Let_def t p)
    also have "\<dots> = (curve @ [js_point (hype_sample totalRange points startTime i)]) @
         map (js_point \<circ> hype_sample totalRange points startTime) [i + 1..points]"
      using "1.hyps"[OF True refl, unfolded t p] "1.prems" by simp
    finally show ?thesis using True by (simp add: upto_rec1[of i points])
  next
    case False
    then show ?thesis by (subst generateHypeCycle_js_loop.simps) simp
  qed
qed


lemma generateSCurve_js_loop_pos:
  "0 < points \<Longrightarrow>
   generateSCurve_js_loop timeRange (Num totalRange) points (Num startTime) i curve =
     curve @ map (js_point \<circ> scurve_sample timeRange totalRange points startTime) [i..points]"
proof (induction timeRange "Num totalRange" points "Num startTime" i curve
       rule: generateSCurve_js_loop.induct)
  case (1 timeRange points i curve)
  show ?case
  proof (cases "i \<le> points")
    case True
    let ?t = "Num (of_int i / of_int points * totalRange + startTime)"
    have t: "js_add (js_mul (js_divide (Num (of_int i)) (Num (of_int points))) (Num totalRange))
               (Num startTime) = ?t"
      using "1.prems" by simp
    have p: "\<lparr>jtime = ?t, jval = scurve_value_js timeRange ?t\<rparr> =
             js_point (scurve_sample timeRange totalRange points startTime i)"
      by (simp add: js_point_def scurve_sample_def Let_def scurve_value_js_Num)
    have "generateSCurve_js_loop timeRange (Num totalRange) points (Num startTime) i curve =
          generateSCurve_js_loop timeRange (Num totalRange) points (Num startTime) (i + 1)
            (curve @ [js_point (scurve_sample timeRange totalRange points startTime i)])"
      using True by (subst generateSCurve_js_loop.simps) (simp only: if_True Let_def t p)
    also have "\<dots> = (curve @ [js_point (scurve_sample timeRange totalRange points startTime i)]) @
         map (js_point \<circ> scurve_sample timeRange totalRange points startTime) [i + 1..points]"
      using "1.hyps"[OF True refl, unfolded t p] "1.prems" by simp
    finally show ?thesis using True by (simp add: upto_rec1[of i points])
  next
    case False
    then show ?thesis by (subst generateSCurve_js_loop.simps) simp
  qed
qed

lemma generateHypeCycle_js_pos:
  assumes "0 < points"
  shows "generateHypeCycle_js timeRange points startTime =
           map js_point (map (hype_sample (timeRange + \<bar>startTime\<bar>) points startTime) [0..points])"
  by (simp add: generateHypeCycle_js_def Let_def generateHypeCycle_js_loop_pos[OF assms])

lemma generateSCurve_js_pos:
  assumes "0 < points"
  shows "generateSCurve_js timeRange points startTime =
           map js_point
             (map (scurve_sample timeRange (timeRange + \<bar>startTime\<bar>) points startTime) [0..points])"
  by (simp add: generateSCurve_js_def Let_def generateSCurve_js_loop_pos[OF assms])

lemma generateHypeCycle_js_zero:
  "generateHypeCycle_js timeRange 0 startTime = [\<lparr>jtime = NaN, jval = NaN\<rparr>]"
  unfolding generateHypeCycle_js_def Let_def
  by (subst generateHypeCycle_js_loop.simps, simp add: hype_value_js_NaN Let_def,
      subst generateHypeCycle_js_loop.simps, simp)

lemma generateSCurve_js_zero:
  "generateSCurve_js timeRange 0 startTime = [\<lparr>jtime = NaN, jval = NaN\<rparr>]"
  unfolding generateSCurve_js_def Let_def
  by (subst generateSCurve_js_loop.simps, simp add: scurve_value_js_NaN Let_def,
      subst generateSCurve_js_loop.simps, simp)

lemma generateHypeCycle_js_neg: "points < 0 \<Longrightarrow> generateHypeCycle_js timeRange points startTime = []"
  unfolding generateHypeCycle_js_def Let_def
  by (subst generateHypeCycle_js_loop.simps) simp

lemma inj_js_point: "inj js_point"
  by (rule injI) (simp add: js_point_def)

text \<open>The real-number model and the model with \<open>NaN\<close> agree.\<close>

lemma generateHypeCycle_refines:
  "generateHypeCycle timeRange points startTime = Inr curve \<longleftrightarrow>
   generateHypeCycle_js timeRange points startTime = map js_point curve"
proof -
  consider "points < 0" | "points = 0" | "0 < points" by linarith
  then show ?thesis
  proof cases
    case 1
    then show ?thesis
      by (auto simp: generateHypeCycle_neg generateHypeCycle_js_neg)
  next
    case 2
    have "generateHypeCycle timeRange 0 startTime = Inl NotFinite"
      unfolding generateHypeCycle_def Let_def
      by (subst generateHypeCycle_loop.simps) (simp add: js_div_def)
    then show ?thesis using 2
      by (cases curve) (auto simp: generateHypeCycle_js_zero js_point_def)
  next
    case 3
    have "map js_point xs = map js_point curve \<longleftrightarrow> xs = curve" for xs
      by (rule inj_map_eq_map[OF inj_js_point])
    then show ?thesis
      unfolding generateHypeCycle_pos[OF 3] generateHypeCycle_js_pos[OF 3]
      by (simp del: map_map)
  qed
qed

lemma generateSCurve_neg: "points < 0 \<Longrightarrow> generateSCurve timeRange points startTime = Inr []"
  unfolding generateSCurve_def Let_def
  by (subst generateSCurve_loop.simps) simp

lemma generateSCurve_js_neg: "points < 0 \<Longrightarrow> generateSCurve_js timeRange points startTime = []"
  unfolding generateSCurve_js_def Let_def
  by (subst generateSCurve_js_loop.simps) simp

lemma generateSCurve_refines:
  "generateSCurve timeRange points startTime = Inr curve \<longleftrightarrow>
   generateSCurve_js timeRange points startTime = map js_point curve"
proof -
  consider "points < 0" | "points = 0" | "0 < points" by linarith
  then show ?thesis
  proof cases
    case 1
    then show ?thesis
      by (auto simp: generateSCurve_neg generateSCurve_js_neg)
  next
    case 2
    have "generateSCurve timeRange 0 startTime = Inl NotFinite"
      unfolding generateSCurve_def Let_def
      by (subst generateSCurve_loop.simps) (simp add: js_div_def)
    then show ?thesis using 2
      by (cases curve) (auto simp: generateSCurve_js_zero js_point_def)
  next
    case 3
    have "map js_point xs = map js_point curve \<longleftrightarrow> xs = curve" for xs
      by (rule inj_map_eq_map[OF inj_js_point])
    then show ?thesis
      unfolding generateSCurve_pos[OF 3] generateSCurve_js_pos[OF 3]
      by (simp del: map_map)
  qed
qed

text \<open>
  C6 (as amended). With \<open>points = 0\<close> either generator returns a single point, and both
  its time and its value are \<open>NaN\<close> (the time is computed from \<open>0 / 0\<close>), for every
  \<open>timeRange\<close> and \<open>startTime\<close>; nothing is thrown. For \<open>points \<ge> 1\<close> every time and
  value of the \<open>points + 1\<close> returned points is a finite real, the one the real-number
  model computes.
\<close>

theorem generators_zero_points_NaN:
  "generateHypeCycle_js timeRange 0 startTime = [\<lparr>jtime = NaN, jval = NaN\<rparr>] \<and>
   generateSCurve_js timeRange 0 startTime = [\<lparr>jtime = NaN, jval = NaN\<rparr>] \<and>
   generateHypeCycle timeRange 0 startTime = Inl NotFinite \<and>
   generateSCurve timeRange 0 startTime = Inl NotFinite \<and>
   (1 \<le> points \<longrightarrow>
      (\<exists>curve. generateHypeCycle_js timeRange points startTime = map js_point curve \<and>
               generateHypeCycle timeRange points startTime = Inr curve \<and>
               length curve = nat points + 1) \<and>
      (\<exists>curve. generateSCurve_js timeRange points startTime = map js_point curve \<and>
               generateSCurve timeRange points startTime = Inr curve \<and>
               length curve = nat points + 1))"
proof -
  have h0: "generateHypeCycle timeRange 0 startTime = Inl NotFinite"
    unfolding generateHypeCycle_def Let_def
    by (subst generateHypeCycle_loop.simps) (simp add: js_div_def)
  have s0: "generateSCurve timeRange 0 startTime = Inl NotFinite"
    unfolding generateSCurve_def Let_def
    by (subst generateSCurve_loop.simps) (simp add: js_div_def)
  have pos: "(\<exists>curve. generateHypeCycle_js timeRange points startTime = map js_point curve \<and>
               generateHypeCycle timeRange points startTime = Inr curve \<and>
               length curve = nat points + 1) \<and>
      (\<exists>curve. generateSCurve_js timeRange points startTime = map js_point curve \<and>
               generateSCurve timeRange points startTime = Inr curve \<and>
               length curve = nat points + 1)" if "1 \<le> points"
  proof -
    have p: "0 < points" using that by simp
    show ?thesis
      using p by (simp add: generateHypeCycle_js_pos[OF p] generateHypeCycle_pos[OF p]
          generateSCurve_js_pos[OF p] generateSCurve_pos[OF p])
  qed
  show ?thesis
    using h0 s0 pos generateHypeCycle_js_zero generateSCurve_js_zero by blast
qed

theorem generators_zero_points_NaN_witness:
  "generateHypeCycle_js 20 0 (-10) = [\<lparr>jtime = NaN, jval = NaN\<rparr>] \<and>
   generateSCurve_js 20 0 (-10) = [\<lparr>jtime = NaN, jval = NaN\<rparr>] \<and>
   (\<exists>curve. generateHypeCycle_js 20 4 (-10) = map js_point curve \<and>
            generateHypeCycle 20 4 (-10) = Inr curve \<and> length curve = 5) \<and>
   (\<exists>curve. generateSCurve_js 20 4 (-10) = map js_point curve \<and>
            generateSCurve 20 4 (-10) = Inr curve \<and> length curve = 5)"
  using generators_zero_points_NaN[of 20 "-10" 4] by simp

text \<open>
  C6 as stated fails: \<open>generateHypeCycle(20, 0, -10)\<close> does not return a point at time
  \<open>-10\<close> with a finite value.
\<close>

theorem generateHypeCycle_zero_points_counterexample:
  "generateHypeCycle 20 0 (-10) = Inl NotFinite \<and>
   generateHypeCycle_js 20 0 (-10) = [\<lparr>jtime = NaN, jval = NaN\<rparr>]"
proof
  show "generateHypeCycle 20 0 (-10) = Inl NotFinite"
    unfolding generateHypeCycle_def Let_def
    by (subst generateHypeCycle_loop.simps) (simp add: js_div_def)
  show "generateHypeCycle_js 20 0 (-10) = [\<lparr>jtime = NaN, jval = NaN\<rparr>]"
    by (rule generateHypeCycle_js_zero)
qed

subsection \<open>offsetCurve in double arithmetic\<close>

lemma pow2_powr: "pow2 k = 2 powr (of_int k)"
proof (cases "0 \<le> k")
  case True
  then have "(2::real) powr (of_int k) = 2 powr (real (nat k))" by simp
  also have "\<dots> = 2 ^ nat k" by (rule powr_realpow) simp
  finally show ?thesis using True by (simp add: pow2_def)
next
  case False
  then have "(2::real) powr (of_int k) = 2 powr (- real (nat (- k)))" by simp
  also have "\<dots> = 1 / 2 powr (real (nat (- k)))" by (simp add: powr_minus_divide)
  also have "\<dots> = 1 / 2 ^ nat (- k)" by (simp add: powr_realpow)
  finally show ?thesis using False by (simp add: pow2_def)
qed

lemma pow2_pos: "0 < pow2 k"
  by (simp add: pow2_powr)

lemma pow2_diff: "pow2 (k - j) = pow2 k / pow2 j"
  by (simp add: pow2_powr powr_diff)

lemma round_double_eval:
  assumes "pow2 k \<le> \<bar>x\<bar>" and "\<bar>x\<bar> < pow2 (k + 1)"
  shows "round_double x =
           sgn x * of_int (round_half_even (\<bar>x\<bar> / pow2 (k - 52))) * pow2 (k - 52)"
proof -
  have pos: "0 < \<bar>x\<bar>" using assms(1) pow2_pos[of k] by linarith
  have "\<lfloor>log 2 \<bar>x\<bar>\<rfloor> = k"
    using assms pos by (subst floor_log_eq_powr_iff) (simp_all add: pow2_powr)
  then show ?thesis using pos by (simp add: round_double_def Let_def)
qed

lemma round_half_even_ge_floor: "\<lfloor>x\<rfloor> \<le> round_half_even x"
  by (simp add: round_half_even_def Let_def)

lemma round_double_nonzero:
  assumes "x \<noteq> 0"
  shows "round_double x \<noteq> 0"
proof -
  let ?L = "\<lfloor>log 2 \<bar>x\<bar>\<rfloor>"
  have pos: "0 < \<bar>x\<bar>" using assms by simp
  have "pow2 ?L \<le> 2 powr (log 2 \<bar>x\<bar>)"
    unfolding pow2_powr by (intro powr_mono) simp_all
  then have le: "pow2 ?L \<le> \<bar>x\<bar>" using pos by simp
  have "\<bar>x\<bar> / pow2 (?L - 52) = \<bar>x\<bar> / pow2 ?L * 2 ^ 52"
    by (simp add: pow2_diff) (simp add: pow2_def)
  moreover have "1 \<le> \<bar>x\<bar> / pow2 ?L" using le pow2_pos[of ?L] by simp
  moreover have "1 * 1 \<le> \<bar>x\<bar> / pow2 ?L * (2 ^ 52 :: real)"
    using \<open>1 \<le> \<bar>x\<bar> / pow2 ?L\<close> by (intro mult_mono) simp_all
  ultimately have "1 \<le> \<bar>x\<bar> / pow2 (?L - 52)" by simp
  then have "1 \<le> \<lfloor>\<bar>x\<bar> / pow2 (?L - 52)\<rfloor>" by simp
  then have "1 \<le> round_half_even (\<bar>x\<bar> / pow2 (?L - 52))"
    using round_half_even_ge_floor[of "\<bar>x\<bar> / pow2 (?L - 52)"] by linarith
  then have "of_int (round_half_even (\<bar>x\<bar> / pow2 (?L - 52))) \<noteq> (0::real)" by simp
  then show ?thesis using assms pow2_pos[of "?L - 52"]
    by (simp add: round_double_def Let_def sgn_eq_0_iff)
qed

lemma round_double_0: "round_double 0 = 0"
  by (simp add: round_double_def)

lemma round_double_1: "round_double 1 = 1"
  by (simp add: round_double_def Let_def round_half_even_def pow2_def)

lemma offsetCurve_fl_exact: "offsetCurve_fl (\<lambda>x. x) = offsetCurve"
proof -
  have s: "shift_point_fl (\<lambda>x. x) = shift_point"
    by (intro ext) (simp add: shift_point_fl_def shift_point_def)
  have i: "interpolate_at_fl (\<lambda>x. x) = interpolate_at"
    by (intro ext)
       (simp add: interpolate_at_fl_def interpolate_at_def Let_def
             split: prod.splits option.splits sum.splits)
  show ?thesis
    by (intro ext) (simp add: offsetCurve_fl_def offsetCurve_def s i)
qed

lemma select_pair_own_time:
  assumes srt: "sorted_wrt (<) (map time c)" and k: "k < length c"
  shows "select_pair c (time (c ! k)) =
           (if length c = 1 then (Some (c ! 0), Some (c ! 0))
            else if k = 0 then (Some (c ! 0), Some (c ! 1))
            else (Some (c ! (k - 1)), Some (c ! k)))"
proof -
  have mono: "time (c ! i) < time (c ! j)" if "i < j" "j < length c" for i j
    using srt that by (simp add: sorted_wrt_map sorted_wrt_iff_nth_less)
  let ?t = "time (c ! k)"
  consider (single) "length c = 1" | (first) "k = 0" "2 \<le> length c" | (later) "0 < k"
    using k by atomize_elim arith
  then show ?thesis
  proof cases
    case single
    have "find_bracket c ?t 0 = None" using single by (intro find_bracket_None) simp
    then have "select_pair c ?t = (Some (hd c), Some (last c))"
      using single by (intro select_pair_no_bracket) auto
    moreover have "hd c = c ! 0" "last c = c ! 0"
      using single by (simp_all add: hd_conv_nth last_conv_nth flip: length_0_conv)
    ultimately show ?thesis using single by simp
  next
    case first
    have lt: "time (c ! 0) < time (c ! 1)" using first by (intro mono) simp_all
    have "find_bracket c ?t 0 = Some (c ! 0, c ! (0 + 1))"
      using first lt by (intro find_bracket_first) simp_all
    then show ?thesis using first by (simp add: select_pair_def)
  next
    case later
    then obtain j where j: "k = j + 1" by (cases k) simp_all
    have lt: "time (c ! j) < time (c ! (j + 1))" using k j by (intro mono) simp_all
    have "find_bracket c ?t 0 = Some (c ! j, c ! (j + 1))"
    proof (rule find_bracket_first)
      show "0 \<le> j" by simp
      show "j + 1 < length c" using k j by simp
      show "time (c ! j) \<le> ?t" using lt j by simp
      show "?t \<le> time (c ! (j + 1))" using j by simp
      fix i assume "0 \<le> i" "i < j"
      then have "time (c ! (i + 1)) < ?t"
        using k j by (cases "i + 1 = j") (auto intro: mono less_trans[OF _ lt])
      then show "\<not> (time (c ! i) \<le> ?t \<and> ?t \<le> time (c ! (i + 1)))" by simp
    qed
    moreover have "length c \<noteq> 1" using k later by simp
    ultimately show ?thesis using later j by (simp add: select_pair_def)
  qed
qed

lemma interpolate_at_fl_own_time:
  assumes fl0: "fl 0 = 0" and fl1: "fl 1 = 1" and nz: "\<And>x. x \<noteq> 0 \<Longrightarrow> fl x \<noteq> 0"
    and srt: "sorted_wrt (<) (map time c)"
    and rng: "\<forall>p \<in> set c. 0 \<le> val p \<and> val p \<le> 1"
    and dbl: "\<forall>p \<in> set c. fl (val p) = val p"
    and k: "k < length c"
  shows "interpolate_at_fl fl c (time (c ! k)) =
           Inr \<lparr>time = time (c ! k),
                val = (if k = 0 then val (c ! 0)
                       else max 0 (min 1 (fl (val (c ! (k - 1)) +
                              fl (fl (val (c ! k) - val (c ! (k - 1))))))))\<rparr>"
proof -
  have mono: "time (c ! i) < time (c ! j)" if "i < j" "j < length c" for i j
    using srt that by (simp add: sorted_wrt_map sorted_wrt_iff_nth_less)
  let ?t = "time (c ! k)"
  note sp = select_pair_own_time[OF srt k]
  consider (single) "length c = 1" | (first) "k = 0" "2 \<le> length c" | (later) "0 < k"
    using k by atomize_elim arith
  then show ?thesis
  proof cases
    case single
    then have "k = 0" using k by simp
    then show ?thesis using sp single by (simp add: interpolate_at_fl_def)
  next
    case first
    have lt: "time (c ! 0) < time (c ! 1)" using first by (intro mono) simp_all
    have d: "fl (time (c ! 1) - time (c ! 0)) \<noteq> 0" using lt by (intro nz) simp
    have v0: "0 \<le> val (c ! 0)" "val (c ! 0) \<le> 1" "fl (val (c ! 0)) = val (c ! 0)"
      using rng dbl k first by simp_all
    have sp': "select_pair c (time (c ! 0)) = (Some (c ! 0), Some (c ! 1))"
      using sp first by simp
    show ?thesis
      using first lt d v0
      by (simp add: interpolate_at_fl_def sp' js_div_def fl0 Let_def)
  next
    case later
    then have lt: "time (c ! (k - 1)) < time (c ! k)" using k by (intro mono) simp_all
    have d: "fl (time (c ! k) - time (c ! (k - 1))) \<noteq> 0" using lt by (intro nz) simp
    have sp': "select_pair c ?t = (Some (c ! (k - 1)), Some (c ! k))"
      using sp later k by simp
    show ?thesis
      using later lt d
      by (simp add: interpolate_at_fl_def sp' js_div_def fl1 Let_def)
  qed
qed

lemma offsetCurve_fl_own_grid:
  assumes fl0: "fl 0 = 0" and fl1: "fl 1 = 1" and nz: "\<And>x. x \<noteq> 0 \<Longrightarrow> fl x \<noteq> 0"
    and srt: "sorted_wrt (<) (map time c)"
    and rng: "\<forall>p \<in> set c. 0 \<le> val p \<and> val p \<le> 1"
    and dbl: "\<forall>p \<in> set c. fl (time p) = time p \<and> fl (val p) = val p"
  shows "offsetCurve_fl fl c 0 (map time c) =
           Inr (map (\<lambda>k. \<lparr>time = time (c ! k),
                           val = (if k = 0 then val (c ! 0)
                                  else max 0 (min 1 (fl (val (c ! (k - 1)) +
                                         fl (fl (val (c ! k) - val (c ! (k - 1))))))))\<rparr>)
                 [0..<length c])"
proof -
  have sh: "map (shift_point_fl fl 0) c = c"
    using dbl by (intro map_idI) (simp add: shift_point_fl_def)
  have dv: "\<forall>p \<in> set c. fl (val p) = val p" using dbl by simp
  have "map (interpolate_at_fl fl c) (map time c) =
        map Inr (map (\<lambda>k. \<lparr>time = time (c ! k),
                           val = (if k = 0 then val (c ! 0)
                                  else max 0 (min 1 (fl (val (c ! (k - 1)) +
                                         fl (fl (val (c ! k) - val (c ! (k - 1))))))))\<rparr>)
                 [0..<length c])"
    by (rule nth_equalityI)
       (simp_all add: interpolate_at_fl_own_time[OF fl0 fl1 nz srt rng dv])
  then show ?thesis
    by (simp add: offsetCurve_fl_def Let_def sh map_result_Inr_iff)
qed

lemma round_half_even_frac:
  fixes p q f r :: int
  assumes "0 < q" "p = q * f + r" "0 \<le> r" "r < q"
  shows "round_half_even (of_int p / of_int q) =
           (if 2 * r < q then f else if q < 2 * r then f + 1 else if even f then f else f + 1)"
proof -
  have q: "(0::real) < of_int q" using assms(1) by simp
  have x: "(of_int p :: real) / of_int q = of_int f + of_int r / of_int q"
    using q by (simp add: assms(2) field_simps)
  have r0: "(0::real) \<le> of_int r / of_int q" using assms(1,3) by simp
  have r1: "(of_int r :: real) / of_int q < 1" using assms(1,4) by simp
  have fl: "\<lfloor>(of_int p :: real) / of_int q\<rfloor> = f"
    unfolding x using r0 r1 by (intro floor_unique) simp_all
  have rem: "(of_int p :: real) / of_int q - of_int f = of_int r / of_int q" by (simp add: x)
  have lt: "(of_int r :: real) / of_int q < 1/2 \<longleftrightarrow> 2 * r < q"
  proof -
    have "(of_int r :: real) / of_int q < 1/2 \<longleftrightarrow> (of_int (2 * r) :: real) < of_int q"
      using q by (simp add: field_simps)
    then show ?thesis by (simp only: of_int_less_iff)
  qed
  have gt: "1/2 < (of_int r :: real) / of_int q \<longleftrightarrow> q < 2 * r"
  proof -
    have "1/2 < (of_int r :: real) / of_int q \<longleftrightarrow> (of_int q :: real) < of_int (2 * r)"
      using q by (simp add: field_simps)
    then show ?thesis by (simp only: of_int_less_iff)
  qed
  show ?thesis
    unfolding round_half_even_def Let_def fl rem lt gt by (rule refl)
qed

lemma round_double_minus: "round_double (- x) = - round_double x"
  by (simp add: round_double_def Let_def sgn_minus)

lemma round_double_rat:
  fixes p q f r :: int and n :: nat
  assumes "0 < p" "0 < q"
    and "2 ^ 52 * q \<le> p * 2 ^ n" and "p * 2 ^ n < 2 ^ 53 * q"
    and "p * 2 ^ n = q * f + r" and "0 \<le> r" and "r < q"
  shows "round_double (of_int p / of_int q) =
           of_int (if 2 * r < q then f else if q < 2 * r then f + 1
                   else if even f then f else f + 1) / 2 ^ n"
proof -
  let ?x = "(of_int p :: real) / of_int q"
  have q: "(0::real) < of_int q" and p: "(0::real) < of_int p" using assms(1,2) by simp_all
  have xpos: "0 < ?x" using p q by simp
  have absx: "\<bar>?x\<bar> = ?x" using xpos by (rule abs_of_pos)
  have pn: "pow2 (- int n) = 1 / 2 ^ n" by (simp add: pow2_def)
  have lo: "pow2 (52 - int n) \<le> \<bar>?x\<bar>"
  proof -
    have "(of_int (2 ^ 52 * q) :: real) \<le> of_int (p * 2 ^ n)"
      using assms(3) by (simp only: of_int_le_iff)
    then have "(2 ^ 52 :: real) / 2 ^ n \<le> ?x" using q by (simp add: field_simps)
    moreover have "pow2 (52 - int n) = 2 ^ 52 / 2 ^ n"
      by (simp add: pow2_diff) (simp add: pow2_def)
    ultimately show ?thesis unfolding absx by simp
  qed
  have hi: "\<bar>?x\<bar> < pow2 (52 - int n + 1)"
  proof -
    have "(of_int (p * 2 ^ n) :: real) < of_int (2 ^ 53 * q)"
      using assms(4) by (simp only: of_int_less_iff)
    then have "?x < (2 ^ 53 :: real) / 2 ^ n" using q by (simp add: field_simps)
    moreover have "pow2 (52 - int n + 1) = 2 ^ 53 / 2 ^ n"
    proof -
      have "pow2 (52 - int n + 1) = pow2 (53 - int n)" by (simp add: algebra_simps)
      also have "\<dots> = 2 ^ 53 / 2 ^ n" by (simp add: pow2_diff) (simp add: pow2_def)
      finally show ?thesis .
    qed
    ultimately show ?thesis unfolding absx by simp
  qed
  have m: "\<bar>?x\<bar> / (1 / 2 ^ n) = of_int (p * 2 ^ n) / of_int q"
    unfolding absx by simp
  have "round_double ?x =
          sgn ?x * of_int (round_half_even (\<bar>?x\<bar> / pow2 (52 - int n - 52))) *
          pow2 (52 - int n - 52)"
    by (rule round_double_eval[OF lo hi])
  also have "\<dots> = of_int (round_half_even (of_int (p * 2 ^ n) / of_int q)) / 2 ^ n"
  proof -
    have s1: "sgn ?x = 1" using xpos by (rule sgn_pos)
    have pe: "pow2 (52 - int n - 52) = 1 / 2 ^ n" using pn by simp
    show ?thesis unfolding pe s1 m by simp
  qed
  also have "round_half_even (of_int (p * 2 ^ n) / of_int q) =
               (if 2 * r < q then f else if q < 2 * r then f + 1
                else if even f then f else f + 1)"
    by (rule round_half_even_frac[OF assms(2,5,6,7)])
  finally show ?thesis .
qed

lemma rd_003: "round_double (3/100) = 8646911284551352 / 2 ^ 58"
  using round_double_rat[of 3 100 58 8646911284551352 32] by simp

lemma rd_001: "round_double (1/100) = 5764607523034235 / 2 ^ 59"
  using round_double_rat[of 1 100 59 5764607523034234 88] by simp

lemma rd_b: "round_double (8646911284551352 / 2 ^ 58) = 8646911284551352 / 2 ^ 58"
  using round_double_rat[of 8646911284551352 "2 ^ 58" 58 8646911284551352 0] by simp

lemma rd_a: "round_double (5764607523034235 / 2 ^ 59) = 5764607523034235 / 2 ^ 59"
  using round_double_rat[of 5764607523034235 "2 ^ 59" 59 5764607523034235 0] by simp

lemma rd_diff:
  "round_double (5764607523034235 / 2 ^ 59 - 8646911284551352 / 2 ^ 58) =
     - (5764607523034234 / 2 ^ 58)"
proof -
  have "(5764607523034235 / 2 ^ 59 - 8646911284551352 / 2 ^ 58 :: real) =
          - (11529215046068469 / 2 ^ 59)" by simp
  moreover have "round_double (11529215046068469 / 2 ^ 59) = 5764607523034234 / 2 ^ 58"
    using round_double_rat[of 11529215046068469 "2 ^ 59" 58 5764607523034234 "2 ^ 58"] by simp
  ultimately show ?thesis by (simp only: round_double_minus)
qed

lemma rd_d1: "round_double (- (5764607523034234 / 2 ^ 58)) = - (5764607523034234 / 2 ^ 58)"
proof -
  have "round_double (5764607523034234 / 2 ^ 58) = 5764607523034234 / 2 ^ 58"
    using round_double_rat[of 5764607523034234 "2 ^ 58" 58 5764607523034234 0] by simp
  then show ?thesis by (simp only: round_double_minus)
qed

lemma rd_sum:
  "round_double (8646911284551352 / 2 ^ 58 + - (5764607523034234 / 2 ^ 58)) =
     5764607523034236 / 2 ^ 59"
proof -
  have "(8646911284551352 / 2 ^ 58 + - (5764607523034234 / 2 ^ 58) :: real) =
          2882303761517118 / 2 ^ 58" by simp
  moreover have "round_double (2882303761517118 / 2 ^ 58) = 5764607523034236 / 2 ^ 59"
    using round_double_rat[of 2882303761517118 "2 ^ 58" 59 5764607523034236 0] by simp
  ultimately show ?thesis by (simp only:)
qed

lemma double_lerp_example:
  "round_double (round_double (3/100) +
     round_double (round_double (round_double (1/100) - round_double (3/100)))) =
   5764607523034236 / 2 ^ 59"
  unfolding rd_003 rd_001 rd_diff rd_d1 rd_sum by (rule refl)

text \<open>
  C4 as stated fails in double arithmetic: for the curve \<open>(0, 0.03), (1, 0.01)\<close> (the
  doubles nearest to these decimals) the value returned at time 1 is
  \<open>5764607523034236 / 2^59\<close> (printed 0.010000000000000002), one unit in the last place
  above the input's \<open>5764607523034235 / 2^59\<close>.
\<close>

theorem offsetCurve_identity_counterexample:
  "offsetCurve_fl round_double
     [\<lparr>time = 0, val = round_double (3/100)\<rparr>, \<lparr>time = 1, val = round_double (1/100)\<rparr>] 0 [0, 1] =
     Inr [\<lparr>time = 0, val = round_double (3/100)\<rparr>, \<lparr>time = 1, val = 5764607523034236 / 2 ^ 59\<rparr>] \<and>
   round_double (1/100) = 5764607523034235 / 2 ^ 59"
proof -
  let ?B = "round_double (3/100)" and ?A = "round_double (1/100)"
  let ?c = "[\<lparr>time = 0, val = ?B\<rparr>, \<lparr>time = 1, val = ?A\<rparr>]"
  have dB: "round_double ?B = ?B" unfolding rd_003 by (rule rd_b)
  have dA: "round_double ?A = ?A" unfolding rd_001 by (rule rd_a)
  have rB: "0 \<le> ?B \<and> ?B \<le> 1" unfolding rd_003 by simp
  have rA: "0 \<le> ?A \<and> ?A \<le> 1" unfolding rd_001 by simp
  have srt: "sorted_wrt (<) (map time ?c)" by simp
  have rng: "\<forall>p \<in> set ?c. 0 \<le> val p \<and> val p \<le> 1" using rA rB by simp
  have dbl: "\<forall>p \<in> set ?c. round_double (time p) = time p \<and> round_double (val p) = val p"
    using dA dB by (simp add: round_double_0 round_double_1)
  have v: "max 0 (min 1 (round_double (?B + round_double (round_double (?A - ?B))))) =
             5764607523034236 / 2 ^ 59"
    unfolding double_lerp_example by simp
  note g = offsetCurve_fl_own_grid[of round_double ?c, OF round_double_0 round_double_1
        round_double_nonzero srt rng dbl]
  have main: "offsetCurve_fl round_double ?c 0 [0, 1] =
          Inr [\<lparr>time = 0, val = ?B\<rparr>, \<lparr>time = 1, val = 5764607523034236 / 2 ^ 59\<rparr>]"
  proof -
    have u: "[0..<Suc (Suc 0)] = [0, Suc 0]" by (simp add: upt_rec)
    show ?thesis using g by (simp add: v u del: upt_Suc)
  qed
  show ?thesis by (rule conjI[OF main rd_001])
qed

lemma rd_quarter: "round_double (1/4) = 1/4"
  using round_double_rat[of 1 4 54 "2 ^ 52" 0] by simp

lemma rd_three_quarters: "round_double (3/4) = 3/4"
  using round_double_rat[of 3 4 53 "3 * 2 ^ 51" 0] by simp

text \<open>
  C4 (as amended). For every curve of doubles with strictly increasing times and values
  in \<open>[0, 1]\<close>, \<open>offsetCurve\<close> with offset 0 and the curve's own times returns, in exact
  real arithmetic, the curve itself. In double arithmetic it returns a curve with the same
  times; the value at index 0 is the input's, and the value at an index \<open>k \<ge> 1\<close> is the
  rounded \<open>v[k-1] + 1 * (v[k] - v[k-1])\<close>, clamped, which can differ from \<open>v[k]\<close> in the
  last bits.
\<close>

theorem offsetCurve_own_grid:
  assumes "sorted_wrt (<) (map time curve)"
    and "\<forall>p \<in> set curve. 0 \<le> val p \<and> val p \<le> 1"
    and "\<forall>p \<in> set curve. round_double (time p) = time p \<and> round_double (val p) = val p"
  shows "offsetCurve curve 0 (map time curve) = Inr curve \<and>
         (\<exists>r. offsetCurve_fl round_double curve 0 (map time curve) = Inr r \<and>
              map time r = map time curve \<and>
              (\<forall>k < length curve.
                 val (r ! k) =
                   (if k = 0 then val (curve ! 0)
                    else max 0 (min 1 (round_double (val (curve ! (k - 1)) +
                           round_double (round_double (val (curve ! k) - val (curve ! (k - 1))))))))))"
proof -
  let ?r = "map (\<lambda>k. \<lparr>time = time (curve ! k),
                        val = (if k = 0 then val (curve ! 0)
                               else max 0 (min 1 (round_double (val (curve ! (k - 1)) +
                                      round_double (round_double
                                        (val (curve ! k) - val (curve ! (k - 1))))))))\<rparr>)
              [0..<length curve]"
  have exact: "offsetCurve curve 0 (map time curve) = Inr curve"
    using assms(1,2) by (rule offsetCurve_zero_identity)
  have g: "offsetCurve_fl round_double curve 0 (map time curve) = Inr ?r"
    by (rule offsetCurve_fl_own_grid[OF round_double_0 round_double_1 round_double_nonzero assms])
  have t: "map time ?r = map time curve"
    by (rule nth_equalityI) simp_all
  have v: "\<forall>k < length curve.
             val (?r ! k) =
               (if k = 0 then val (curve ! 0)
                else max 0 (min 1 (round_double (val (curve ! (k - 1)) +
                       round_double (round_double (val (curve ! k) - val (curve ! (k - 1))))))))"
    by simp
  show ?thesis using exact g t v by blast
qed

theorem offsetCurve_own_grid_witness:
  "offsetCurve [\<lparr>time = 0, val = 1/4\<rparr>, \<lparr>time = 1, val = 3/4\<rparr>] 0 [0, 1] =
     Inr [\<lparr>time = 0, val = 1/4\<rparr>, \<lparr>time = 1, val = 3/4\<rparr>] \<and>
   (\<exists>r. offsetCurve_fl round_double [\<lparr>time = 0, val = 1/4\<rparr>, \<lparr>time = 1, val = 3/4\<rparr>] 0 [0, 1]
          = Inr r \<and>
        map time r = [0, 1] \<and> val (r ! 0) = 1/4 \<and>
        val (r ! 1) = max 0 (min 1 (round_double (1/4 + round_double (round_double (3/4 - 1/4))))))"
proof -
  let ?c = "[\<lparr>time = 0, val = 1/4\<rparr>, \<lparr>time = 1, val = 3/4 :: real\<rparr>]"
  have srt: "sorted_wrt (<) (map time ?c)" by simp
  have rng: "\<forall>p \<in> set ?c. 0 \<le> val p \<and> val p \<le> 1" by simp
  have dbl: "\<forall>p \<in> set ?c. round_double (time p) = time p \<and> round_double (val p) = val p"
    by (simp add: round_double_0 round_double_1 rd_quarter rd_three_quarters)
  from offsetCurve_own_grid[OF srt rng dbl] obtain r where
    e: "offsetCurve ?c 0 (map time ?c) = Inr ?c"
    and r: "offsetCurve_fl round_double ?c 0 (map time ?c) = Inr r"
    and t: "map time r = map time ?c"
    and v: "\<forall>k < length ?c. val (r ! k) =
              (if k = 0 then val (?c ! 0)
               else max 0 (min 1 (round_double (val (?c ! (k - 1)) +
                      round_double (round_double (val (?c ! k) - val (?c ! (k - 1))))))))"
    by blast
  have v0: "val (r ! 0) = 1/4" using v[rule_format, of 0] by simp
  have v1: "val (r ! 1) = max 0 (min 1 (round_double (1/4 + round_double (round_double (3/4 - 1/4)))))"
    using v[rule_format, of 1] by simp
  show ?thesis using e r t v0 v1 by (intro conjI exI[of _ r]) simp_all
qed

end
